theory Spec2Isabelle
  imports Main "HOL-Library.AList"
begin

section \<open>JavaScript values, objects and exceptions\<close>

text \<open>
  A spreadsheet row is a JavaScript object whose properties hold arbitrary values
  (\<^verbatim>\<open>[key: string]: any\<close>). The enumerable own properties of an object are an
  association list in the order of \<^verbatim>\<open>Object.keys\<close>. Numbers are modelled by integers:
  the code only tests them for truthiness. Functions are one value: the code only reads
  their truthiness and their \<^verbatim>\<open>typeof\<close>.
\<close>

datatype jsval =
    JUndefined
  | JNull
  | JBool bool
  | JNum int
  | JStr string
  | JFunction
  | JObj "(string \<times> jsval) list"

type_synonym jsobj = "(string \<times> jsval) list"
type_synonym ValidationResult = jsobj

text \<open>The value thrown by a \<^verbatim>\<open>throw\<close>: an \<^verbatim>\<open>Error\<close> with its message, or anything else.\<close>

datatype thrown = ErrorObj string | OtherThrown

fun truthy :: "jsval \<Rightarrow> bool" where
  "truthy JUndefined = False"
| "truthy JNull = False"
| "truthy (JBool b) = b"
| "truthy (JNum k) = (k \<noteq> 0)"
| "truthy (JStr s) = (s \<noteq> [])"
| "truthy JFunction = True"
| "truthy (JObj fs) = True"

fun typeof :: "jsval \<Rightarrow> string" where
  "typeof JUndefined = ''undefined''"
| "typeof JNull = ''object''"
| "typeof (JBool b) = ''boolean''"
| "typeof (JNum k) = ''number''"
| "typeof (JStr s) = ''string''"
| "typeof JFunction = ''function''"
| "typeof (JObj fs) = ''object''"

text \<open>\<^verbatim>\<open>a || b\<close>\<close>

definition js_or :: "jsval \<Rightarrow> jsval \<Rightarrow> jsval" where
  "js_or a b = (if truthy a then a else b)"

text \<open>
  \<^verbatim>\<open>obj[k]\<close> reads the enumerable own property \<open>k\<close> when the object has one, otherwise
  a non-enumerable own or an inherited property of that name, and is \<^verbatim>\<open>undefined\<close> when
  there is none.
\<close>

definition read_prop :: "jsobj \<Rightarrow> jsobj \<Rightarrow> string \<Rightarrow> jsval" where
  "read_prop enumerable other k =
     (case map_of enumerable k of
        Some v \<Rightarrow> v
      | None \<Rightarrow> (case map_of other k of Some v \<Rightarrow> v | None \<Rightarrow> JUndefined))"

text \<open>
  What every plain object inherits from \<^verbatim>\<open>Object.prototype\<close>: eleven methods, and the
  accessor \<^verbatim>\<open>__proto__\<close>, which reads as \<^verbatim>\<open>Object.prototype\<close> itself, an object without
  enumerable properties.
\<close>

definition object_prototype :: jsobj where
  "object_prototype =
     [(''constructor'', JFunction),
      (''__defineGetter__'', JFunction),
      (''__defineSetter__'', JFunction),
      (''hasOwnProperty'', JFunction),
      (''__lookupGetter__'', JFunction),
      (''__lookupSetter__'', JFunction),
      (''isPrototypeOf'', JFunction),
      (''propertyIsEnumerable'', JFunction),
      (''toString'', JFunction),
      (''valueOf'', JFunction),
      (''__proto__'', JObj []),
      (''toLocaleString'', JFunction)]"

text \<open>\<^verbatim>\<open>obj[k]\<close> on an object made by an object literal, such as a result object.\<close>

definition get_prop :: "jsobj \<Rightarrow> string \<Rightarrow> jsval" where
  "get_prop obj k = read_prop obj object_prototype k"

text \<open>
  An input row: its columns (the enumerable own properties, which \<^verbatim>\<open>Object.keys\<close> and
  the spread \<^verbatim>\<open>...row\<close> see) and its other readable properties (non-enumerable own ones
  and inherited ones, which only \<^verbatim>\<open>row[k]\<close> sees). A plain object has the members of
  \<^verbatim>\<open>Object.prototype\<close> as its other properties; a row made by \<^verbatim>\<open>sheet_to_json\<close> has
  the non-enumerable \<^verbatim>\<open>__rowNum__\<close> as well.
\<close>

record EmailRow =
  columns :: jsobj
  hidden :: jsobj

definition row_prop :: "EmailRow \<Rightarrow> string \<Rightarrow> jsval" where
  "row_prop row k = read_prop (columns row) (hidden row) k"

definition plain :: "jsobj \<Rightarrow> EmailRow" where
  "plain kvs = \<lparr>columns = kvs, hidden = object_prototype\<rparr>"

definition sheet_row :: "int \<Rightarrow> jsobj \<Rightarrow> EmailRow" where
  "sheet_row R kvs = \<lparr>columns = kvs, hidden = (''__rowNum__'', JNum R) # object_prototype\<rparr>"

text \<open>
  \<^verbatim>\<open>row[Object.keys(row)[0]]\<close>: for an object without keys the index is
  \<^verbatim>\<open>undefined\<close>, which is read as the property named \<^verbatim>\<open>"undefined"\<close>.
\<close>

definition first_field :: "EmailRow \<Rightarrow> jsval" where
  "first_field row =
     (case columns row of [] \<Rightarrow> row_prop row ''undefined'' | (k, v) # rest \<Rightarrow> row_prop row k)"

text \<open>
  An object literal \<^verbatim>\<open>{...row, k1: v1, k2: v2}\<close> over the columns of the row: each named
  property replaces the column of that name in place, or is appended when the row has
  none.
\<close>

definition spread :: "jsobj \<Rightarrow> (string \<times> jsval) list \<Rightarrow> jsobj" where
  "spread obj kvs = foldl (\<lambda>obj (k, v). AList.update k v obj) obj kvs"

text \<open>The string held by a value whose \<^verbatim>\<open>typeof\<close> is \<^verbatim>\<open>"string"\<close>.\<close>

fun str_val :: "jsval \<Rightarrow> string" where
  "str_val (JStr s) = s"
| "str_val v = []"

definition opt_str :: "string option \<Rightarrow> jsval" where
  "opt_str r = (case r of None \<Rightarrow> JUndefined | Some s \<Rightarrow> JStr s)"

text \<open>
  \<^verbatim>\<open>String.prototype.trim\<close> on single-byte characters: tab, line feed, vertical tab,
  form feed, carriage return, space and no-break space are stripped from both ends.
\<close>

definition is_ws :: "char \<Rightarrow> bool" where
  "is_ws c = ((of_char c :: nat) \<in> {9, 10, 11, 12, 13, 32, 160})"

definition trim :: "string \<Rightarrow> string" where
  "trim s = rev (dropWhile is_ws (rev (dropWhile is_ws s)))"

text \<open>\<^verbatim>\<open>error instanceof Error ? error.message : 'Unknown error'\<close>\<close>

definition error_message :: "thrown \<Rightarrow> string" where
  "error_message e = (case e of ErrorObj m \<Rightarrow> m | OtherThrown \<Rightarrow> ''Unknown error'')"

section \<open>The per-address validator (external)\<close>

text \<open>
  \<^verbatim>\<open>validate\<close> is imported from the validation library. It is called with the address
  and the sender (all five stage flags are the constant \<^verbatim>\<open>true\<close>), performs network
  I/O on a world \<open>'n\<close>, and either resolves with an \<^verbatim>\<open>OutputFormat\<close> or throws.
\<close>

record OutputFormat =
  o_valid :: bool
  o_reason :: "string option"
  o_validators :: jsval

type_synonym 'n validate = "string \<Rightarrow> string \<Rightarrow> 'n \<Rightarrow> (thrown + OutputFormat) \<times> 'n"

section \<open>xlsxProcessor: validateEmails\<close>

text \<open>\<^verbatim>\<open>row[emailColumn] || row[Object.keys(row)[0]]\<close>\<close>

definition extract_email :: "EmailRow \<Rightarrow> string \<Rightarrow> jsval" where
  "extract_email row emailColumn = js_or (row_prop row emailColumn) (first_field row)"

text \<open>\<^verbatim>\<open>senderEmail || emailToValidate\<close>, for an optional string \<^verbatim>\<open>senderEmail\<close>.\<close>

definition sender_or :: "string option \<Rightarrow> string \<Rightarrow> string" where
  "sender_or senderEmail emailToValidate =
     (case senderEmail of None \<Rightarrow> emailToValidate
      | Some s \<Rightarrow> if s = [] then emailToValidate else s)"

text \<open>The three objects pushed to \<^verbatim>\<open>results\<close>.\<close>

definition invalid_result :: "EmailRow \<Rightarrow> jsval \<Rightarrow> ValidationResult" where
  "invalid_result row email =
     spread (columns row) [(''email'', js_or email (JStr [])),
                 (''valid'', JBool False),
                 (''reason'', JStr ''Invalid email format'')]"

definition ok_result :: "EmailRow \<Rightarrow> string \<Rightarrow> OutputFormat \<Rightarrow> ValidationResult" where
  "ok_result row emailToValidate validationResult =
     spread (columns row) [(''email'', JStr emailToValidate),
                 (''valid'', JBool (o_valid validationResult)),
                 (''reason'', opt_str (o_reason validationResult)),
                 (''validators'', o_validators validationResult)]"

definition error_result :: "EmailRow \<Rightarrow> string \<Rightarrow> string \<Rightarrow> ValidationResult" where
  "error_result row emailToValidate errorMessage =
     spread (columns row) [(''email'', JStr emailToValidate),
                 (''valid'', JBool False),
                 (''reason'', JStr (''Validation error: '' @ errorMessage))]"

text \<open>
  One iteration of the loop of \<^verbatim>\<open>validateEmails\<close>: the object it pushes and the world
  after it. Console output is left out: it changes neither values nor control flow.
\<close>

definition validate_row ::
  "'n validate \<Rightarrow> string \<Rightarrow> string option \<Rightarrow> EmailRow \<Rightarrow> 'n \<Rightarrow> ValidationResult \<times> 'n" where
  "validate_row validate emailColumn senderEmail row n =
     (let email = extract_email row emailColumn in
      if \<not> truthy email \<or> typeof email \<noteq> ''string'' then (invalid_result row email, n)
      else
        let emailToValidate = trim (str_val email) in
        case validate emailToValidate (sender_or senderEmail emailToValidate) n of
          (Inr validationResult, n') \<Rightarrow> (ok_result row emailToValidate validationResult, n')
        | (Inl error, n') \<Rightarrow> (error_result row emailToValidate (error_message error), n'))"

fun validateEmails_loop ::
  "'n validate \<Rightarrow> string \<Rightarrow> string option \<Rightarrow> EmailRow list \<Rightarrow> ValidationResult list \<Rightarrow> 'n
     \<Rightarrow> ValidationResult list \<times> 'n" where
  "validateEmails_loop validate emailColumn senderEmail [] results n = (results, n)"
| "validateEmails_loop validate emailColumn senderEmail (row # rest) results n =
     (case validate_row validate emailColumn senderEmail row n of
        (result, n') \<Rightarrow>
          validateEmails_loop validate emailColumn senderEmail rest (results @ [result]) n')"

definition validateEmails ::
  "'n validate \<Rightarrow> EmailRow list \<Rightarrow> string \<Rightarrow> string option \<Rightarrow> 'n \<Rightarrow> ValidationResult list \<times> 'n" where
  "validateEmails validate emails emailColumn senderEmail n =
     validateEmails_loop validate emailColumn senderEmail emails [] n"

section \<open>xlsxProcessor: processXLSXFile\<close>

text \<open>
  The spreadsheet codec and the file system are external. \<open>xlsx_read\<close> stands for
  \<^verbatim>\<open>XLSX.readFile\<close> followed by \<^verbatim>\<open>sheet_to_json\<close> on the first sheet,
  \<open>xlsx_write\<close> for \<^verbatim>\<open>json_to_sheet\<close> followed by \<^verbatim>\<open>XLSX.writeFile\<close>; either may throw.
\<close>

record io =
  xlsx_read :: "string \<Rightarrow> thrown + EmailRow list"
  xlsx_write :: "ValidationResult list \<Rightarrow> string \<Rightarrow> thrown option"
  unlinkSync :: "string \<Rightarrow> thrown option"
  existsSync :: "string \<Rightarrow> bool"

definition readEmailsFromXLSX :: "io \<Rightarrow> string \<Rightarrow> thrown + EmailRow list" where
  "readEmailsFromXLSX fs filePath = xlsx_read fs filePath"

definition writeResultsToXLSX :: "io \<Rightarrow> ValidationResult list \<Rightarrow> string \<Rightarrow> thrown option" where
  "writeResultsToXLSX fs results outputPath = xlsx_write fs results outputPath"

record stats =
  total :: nat
  valid :: nat
  invalid :: nat

text \<open>\<^verbatim>\<open>results.filter((r) => r.valid).length\<close> and its negation.\<close>

definition count_valid :: "ValidationResult list \<Rightarrow> nat" where
  "count_valid results = length (filter (\<lambda>r. truthy (get_prop r ''valid'')) results)"

definition count_invalid :: "ValidationResult list \<Rightarrow> nat" where
  "count_invalid results = length (filter (\<lambda>r. \<not> truthy (get_prop r ''valid'')) results)"

definition processXLSXFile ::
  "io \<Rightarrow> 'n validate \<Rightarrow> string \<Rightarrow> string \<Rightarrow> string \<Rightarrow> string option \<Rightarrow> 'n
     \<Rightarrow> (thrown + stats) \<times> 'n" where
  "processXLSXFile fs validate inputPath outputPath emailColumn senderEmail n =
     (case readEmailsFromXLSX fs inputPath of
        Inl error \<Rightarrow> (Inl error, n)
      | Inr emails \<Rightarrow>
          if length emails = 0 then (Inr \<lparr>total = 0, valid = 0, invalid = 0\<rparr>, n)
          else
            case validateEmails validate emails emailColumn senderEmail n of
              (results, n') \<Rightarrow>
                (case writeResultsToXLSX fs results outputPath of
                   Some error \<Rightarrow> (Inl error, n')
                 | None \<Rightarrow>
                     (Inr \<lparr>total = length results,
                           valid = count_valid results,
                           invalid = count_invalid results\<rparr>, n')))"

section \<open>xlsxProcessor: validateEmailsWithSSE\<close>

text \<open>
  The progress callback \<^verbatim>\<open>onEmailValidated(email, valid, reason)\<close> acts on a state
  \<open>'s\<close> of its own and returns normally (\<open>None\<close>) or throws. The parameter is
  optional: \<^verbatim>\<open>if (onEmailValidated) onEmailValidated(...)\<close>.
\<close>

type_synonym 's callback = "jsval \<Rightarrow> bool \<Rightarrow> string option \<Rightarrow> 's \<Rightarrow> thrown option \<times> 's"

definition call_callback ::
  "'s callback option \<Rightarrow> jsval \<Rightarrow> bool \<Rightarrow> string option \<Rightarrow> 's \<Rightarrow> thrown option \<times> 's" where
  "call_callback onEmailValidated email v reason s =
     (case onEmailValidated of None \<Rightarrow> (None, s) | Some f \<Rightarrow> f email v reason s)"

text \<open>
  The \<^verbatim>\<open>catch (error)\<close> block of the loop body. Its call of the callback is outside
  any \<^verbatim>\<open>try\<close>, so a throwing callback ends the whole function.
\<close>

definition sse_catch ::
  "'s callback option \<Rightarrow> EmailRow \<Rightarrow> string \<Rightarrow> thrown \<Rightarrow> ValidationResult list \<Rightarrow> 's \<Rightarrow> 'n
     \<Rightarrow> (thrown + ValidationResult list) \<times> 's \<times> 'n" where
  "sse_catch onEmailValidated row emailToValidate error results s n =
     (let errorMessage = error_message error;
          results1 = results @ [error_result row emailToValidate errorMessage] in
      case call_callback onEmailValidated (JStr emailToValidate) False
             (Some (''Validation error: '' @ errorMessage)) s of
        (None, s') \<Rightarrow> (Inr results1, s', n)
      | (Some thrown, s') \<Rightarrow> (Inl thrown, s', n))"

text \<open>
  One iteration of the loop of \<^verbatim>\<open>validateEmailsWithSSE\<close>, from the \<^verbatim>\<open>results\<close>
  before it to the \<^verbatim>\<open>results\<close> after it, or to the exception that leaves the function.
  In the \<^verbatim>\<open>try\<close> block the callback is called after the push, so when it throws there
  the \<^verbatim>\<open>catch\<close> block runs on the \<^verbatim>\<open>results\<close> that already hold the row.
\<close>

definition sse_row ::
  "'n validate \<Rightarrow> string \<Rightarrow> string option \<Rightarrow> 's callback option \<Rightarrow> EmailRow
     \<Rightarrow> ValidationResult list \<Rightarrow> 's \<Rightarrow> 'n \<Rightarrow> (thrown + ValidationResult list) \<times> 's \<times> 'n" where
  "sse_row validate emailColumn senderEmail onEmailValidated row results s n =
     (let email = extract_email row emailColumn in
      if \<not> truthy email \<or> typeof email \<noteq> ''string'' then
        (let results1 = results @ [invalid_result row email] in
         case call_callback onEmailValidated (js_or email (JStr [])) False
                (Some ''Invalid email format'') s of
           (None, s') \<Rightarrow> (Inr results1, s', n)
         | (Some thrown, s') \<Rightarrow> (Inl thrown, s', n))
      else
        let emailToValidate = trim (str_val email) in
        case validate emailToValidate (sender_or senderEmail emailToValidate) n of
          (Inr validationResult, n') \<Rightarrow>
            (let results1 = results @ [ok_result row emailToValidate validationResult] in
             case call_callback onEmailValidated (JStr emailToValidate)
                    (o_valid validationResult) (o_reason validationResult) s of
               (None, s') \<Rightarrow> (Inr results1, s', n')
             | (Some thrown, s') \<Rightarrow>
                 sse_catch onEmailValidated row emailToValidate thrown results1 s' n')
        | (Inl error, n') \<Rightarrow>
            sse_catch onEmailValidated row emailToValidate error results s n')"

fun validateEmailsWithSSE_loop ::
  "'n validate \<Rightarrow> string \<Rightarrow> string option \<Rightarrow> 's callback option \<Rightarrow> EmailRow list
     \<Rightarrow> ValidationResult list \<Rightarrow> 's \<Rightarrow> 'n \<Rightarrow> (thrown + ValidationResult list) \<times> 's \<times> 'n" where
  "validateEmailsWithSSE_loop validate emailColumn senderEmail cb [] results s n =
     (Inr results, s, n)"
| "validateEmailsWithSSE_loop validate emailColumn senderEmail cb (row # rest) results s n =
     (case sse_row validate emailColumn senderEmail cb row results s n of
        (Inl thrown, s', n') \<Rightarrow> (Inl thrown, s', n')
      | (Inr results1, s', n') \<Rightarrow>
          validateEmailsWithSSE_loop validate emailColumn senderEmail cb rest results1 s' n')"

definition validateEmailsWithSSE ::
  "'n validate \<Rightarrow> EmailRow list \<Rightarrow> string \<Rightarrow> string option \<Rightarrow> 's callback option \<Rightarrow> 's \<Rightarrow> 'n
     \<Rightarrow> (thrown + ValidationResult list) \<times> 's \<times> 'n" where
  "validateEmailsWithSSE validate emails emailColumn senderEmail onEmailValidated s n =
     validateEmailsWithSSE_loop validate emailColumn senderEmail onEmailValidated emails [] s n"

section \<open>Progress events\<close>

text \<open>
  The objects handed to \<^verbatim>\<open>sendSSE\<close> and \<^verbatim>\<open>sendSSEMessage\<close>, by their \<^verbatim>\<open>type\<close> field:
  \<^verbatim>\<open>connected\<close>, \<^verbatim>\<open>start\<close>, \<^verbatim>\<open>email\<close>, \<^verbatim>\<open>complete\<close> (stats, downloadUrl, filename)
  and \<^verbatim>\<open>error\<close>.
\<close>

datatype event =
    Connected string
  | Start nat
  | Email jsval bool "string option"
  | Complete stats string string
  | Error string

type_synonym 's sender = "event \<Rightarrow> 's \<Rightarrow> thrown option \<times> 's"

definition call_sendSSE :: "'s sender option \<Rightarrow> event \<Rightarrow> 's \<Rightarrow> thrown option \<times> 's" where
  "call_sendSSE sendSSE data s = (case sendSSE of None \<Rightarrow> (None, s) | Some f \<Rightarrow> f data s)"

section \<open>xlsxProcessor: processXLSXFileWithSSE\<close>

definition processXLSXFileWithSSE ::
  "io \<Rightarrow> 'n validate \<Rightarrow> string \<Rightarrow> string \<Rightarrow> string \<Rightarrow> string option \<Rightarrow> string
     \<Rightarrow> 's sender option \<Rightarrow> 's \<Rightarrow> 'n \<Rightarrow> (thrown + stats) \<times> 's \<times> 'n" where
  "processXLSXFileWithSSE fs validate inputPath outputPath emailColumn senderEmail sessionId
       sendSSE s n =
     (case readEmailsFromXLSX fs inputPath of
        Inl error \<Rightarrow> (Inl error, s, n)
      | Inr emails \<Rightarrow>
          if length emails = 0 then
            (case call_sendSSE sendSSE (Error ''No emails found in the file'') s of
               (Some thrown, s0) \<Rightarrow> (Inl thrown, s0, n)
             | (None, s0) \<Rightarrow> (Inr \<lparr>total = 0, valid = 0, invalid = 0\<rparr>, s0, n))
          else
            case call_sendSSE sendSSE (Start (length emails)) s of
              (Some thrown, s1) \<Rightarrow> (Inl thrown, s1, n)
            | (None, s1) \<Rightarrow>
                (case validateEmailsWithSSE validate emails emailColumn senderEmail
                        (Some (\<lambda>email v reason. call_sendSSE sendSSE (Email email v reason)))
                        s1 n of
                   (Inl thrown, s2, n') \<Rightarrow> (Inl thrown, s2, n')
                 | (Inr results, s2, n') \<Rightarrow>
                     (case writeResultsToXLSX fs results outputPath of
                        Some error \<Rightarrow> (Inl error, s2, n')
                      | None \<Rightarrow>
                          (Inr \<lparr>total = length results,
                                valid = count_valid results,
                                invalid = count_invalid results\<rparr>, s2, n'))))"

section \<open>server: the registry of SSE connections\<close>

text \<open>
  A \<^verbatim>\<open>Response\<close> object used as an event stream: what has been written to it, whether
  \<^verbatim>\<open>end()\<close> was called, and how its transport behaves: \<open>write_throws\<close> is the
  exception \<^verbatim>\<open>write\<close> throws, if it throws; \<^verbatim>\<open>flush\<close> is optional and may throw too.
  Messages are kept as events, not as the serialised \<^verbatim>\<open>data: ...\<close> lines.
\<close>

datatype flush_kind = NoFlush | FlushOk | FlushThrows thrown

record channel =
  written :: "event list"
  ended :: bool
  write_throws :: "thrown option"
  flush :: flush_kind

text \<open>
  The module state: \<^verbatim>\<open>sseConnections\<close> maps a session id to a reference to a response
  object; the objects live in a store indexed by reference, so that an object dropped
  from the map is still there for whoever holds it.
\<close>

record server =
  sseConnections :: "(string \<times> nat) list"
  responses :: "nat \<Rightarrow> channel"
  next_ref :: nat

definition chan_write :: "channel \<Rightarrow> event \<Rightarrow> thrown option \<times> channel" where
  "chan_write c data =
     (case write_throws c of
        Some thrown \<Rightarrow> (Some thrown, c)
      | None \<Rightarrow> (None, c\<lparr>written := written c @ [data]\<rparr>))"

definition chan_flush :: "channel \<Rightarrow> thrown option \<times> channel" where
  "chan_flush c =
     (case flush c of
        NoFlush \<Rightarrow> (None, c)
      | FlushOk \<Rightarrow> (None, c)
      | FlushThrows thrown \<Rightarrow> (Some thrown, c))"

definition chan_end :: "channel \<Rightarrow> channel" where
  "chan_end c = c\<lparr>ended := True\<rparr>"

text \<open>\<^verbatim>\<open>try { body } catch (error) { handler }\<close> on a state.\<close>

definition try_catch ::
  "('a \<Rightarrow> thrown option \<times> 'a) \<Rightarrow> (thrown \<Rightarrow> 'a \<Rightarrow> thrown option \<times> 'a) \<Rightarrow> 'a \<Rightarrow> thrown option \<times> 'a" where
  "try_catch body handler st =
     (case body st of
        (None, st') \<Rightarrow> (None, st')
      | (Some error, st') \<Rightarrow> handler error st')"

text \<open>The body of the \<^verbatim>\<open>try\<close> in \<^verbatim>\<open>sendSSEMessage\<close>: write, then flush if available.\<close>

definition send_body :: "nat \<Rightarrow> event \<Rightarrow> server \<Rightarrow> thrown option \<times> server" where
  "send_body connection data st =
     (case chan_write (responses st connection) data of
        (Some thrown, c) \<Rightarrow> (Some thrown, st\<lparr>responses := (responses st)(connection := c)\<rparr>)
      | (None, c) \<Rightarrow>
          (case chan_flush c of
             (r, c') \<Rightarrow> (r, st\<lparr>responses := (responses st)(connection := c')\<rparr>)))"

definition sendSSEMessage :: "string \<Rightarrow> event \<Rightarrow> server \<Rightarrow> thrown option \<times> server" where
  "sendSSEMessage sessionId data st =
     (case map_of (sseConnections st) sessionId of
        Some connection \<Rightarrow>
          try_catch (send_body connection data)
            (\<lambda>error st'. (None, st'\<lparr>sseConnections := AList.delete sessionId (sseConnections st')\<rparr>))
            st
      | None \<Rightarrow> (None, st))"

section \<open>server: GET /api/validate-emails-stream\<close>

datatype stream_reply = BadRequest | Streaming nat

text \<open>
  The handler receives the \<^verbatim>\<open>session\<close> query parameter and the response object \<open>res\<close>
  of the request, which enters the store under a new reference. Its \<^verbatim>\<open>write\<close> is
  outside any \<^verbatim>\<open>try\<close>.
\<close>

definition stream_handler ::
  "string option \<Rightarrow> channel \<Rightarrow> server \<Rightarrow> (thrown + stream_reply) \<times> server" where
  "stream_handler session res st =
     (let resAny = next_ref st;
          st0 = st\<lparr>responses := (responses st)(resAny := res), next_ref := Suc resAny\<rparr> in
      case session of
        None \<Rightarrow> (Inr BadRequest, st0)
      | Some sessionId \<Rightarrow>
          if sessionId = [] then (Inr BadRequest, st0)
          else
            let st1 = st0\<lparr>sseConnections := AList.update sessionId resAny (sseConnections st0)\<rparr> in
            case chan_write (responses st1 resAny) (Connected sessionId) of
              (Some thrown, c) \<Rightarrow> (Inl thrown, st1)
            | (None, c) \<Rightarrow> (Inr (Streaming resAny), st1\<lparr>responses := (responses st1)(resAny := c)\<rparr>))"

text \<open>The \<^verbatim>\<open>close\<close> listener installed by the handler for its session and response.\<close>

definition on_close :: "string \<Rightarrow> nat \<Rightarrow> server \<Rightarrow> server" where
  "on_close sessionId resAny st =
     st\<lparr>sseConnections := AList.delete sessionId (sseConnections st),
        responses := (responses st)(resAny := chan_end (responses st resAny))\<rparr>"

section \<open>server: POST /api/validate-emails\<close>

text \<open>
  The second handler of the route, after the upload middleware. Its inputs are the
  uploaded file (\<^verbatim>\<open>req.file\<close>), the body fields \<^verbatim>\<open>emailColumn\<close>, \<^verbatim>\<open>senderEmail\<close>
  and \<^verbatim>\<open>sessionId\<close>, the output directory and the clock. The handler is taken as one
  step on the registry: the half-second wait for a late subscriber changes nothing by
  itself, and other handlers are not interleaved with the run.
\<close>

record upload =
  path :: string
  originalname :: string

datatype post_reply =
    NoFileUploaded
  | Completed stats string string bool
  | Failed string

text \<open>Decimal digits of \<^verbatim>\<open>Date.now()\<close> in a string concatenation.\<close>

fun show_nat :: "nat \<Rightarrow> string" where
  "show_nat k = (if k < 10 then [char_of (48 + k)] else show_nat (k div 10) @ [char_of (48 + k mod 10)])"

text \<open>\<^verbatim>\<open>path.join\<close> of a directory and a file name (no normalisation).\<close>

definition path_join :: "string \<Rightarrow> string \<Rightarrow> string" where
  "path_join dir name = dir @ ''/'' @ name"

text \<open>\<^verbatim>\<open>x || dflt\<close> for an optional string, and \<^verbatim>\<open>x || null\<close>.\<close>

definition str_or :: "string option \<Rightarrow> string \<Rightarrow> string" where
  "str_or x dflt = (case x of None \<Rightarrow> dflt | Some s \<Rightarrow> if s = [] then dflt else s)"

definition str_or_null :: "string option \<Rightarrow> string option" where
  "str_or_null x = (case x of None \<Rightarrow> None | Some s \<Rightarrow> if s = [] then None else Some s)"

text \<open>
  \<^verbatim>\<open>const connection = sseConnections.get(sessionId);
  if (connection) { connection.end(); sseConnections.delete(sessionId) }\<close>
\<close>

definition close_session :: "string \<Rightarrow> server \<Rightarrow> server" where
  "close_session sessionId st =
     (case map_of (sseConnections st) sessionId of
        Some connection \<Rightarrow>
          st\<lparr>responses := (responses st)(connection := chan_end (responses st connection)),
             sseConnections := AList.delete sessionId (sseConnections st)\<rparr>
      | None \<Rightarrow> st)"

text \<open>The \<^verbatim>\<open>catch (error)\<close> block of the handler.\<close>

definition post_catch ::
  "io \<Rightarrow> upload option \<Rightarrow> string option \<Rightarrow> thrown \<Rightarrow> server \<Rightarrow> 'n
     \<Rightarrow> (thrown + post_reply) \<times> server \<times> 'n" where
  "post_catch fs file bodySessionId error st n =
     (let sessionId = str_or_null bodySessionId;
          errorMessage = error_message error in
      case (case sessionId of
              Some sid \<Rightarrow>
                (case sendSSEMessage sid (Error errorMessage) st of
                   (Some thrown, st') \<Rightarrow> (Some thrown, st')
                 | (None, st') \<Rightarrow> (None, close_session sid st'))
            | None \<Rightarrow> (None, st)) of
        (Some thrown, st1) \<Rightarrow> (Inl thrown, st1, n)
      | (None, st1) \<Rightarrow>
          (case (case file of
                   Some f \<Rightarrow> if existsSync fs (path f) then unlinkSync fs (path f) else None
                 | None \<Rightarrow> None) of
             Some thrown \<Rightarrow> (Inl thrown, st1, n)
           | None \<Rightarrow> (Inr (Failed errorMessage), st1, n)))"

definition post_handler ::
  "io \<Rightarrow> 'n validate \<Rightarrow> string \<Rightarrow> nat \<Rightarrow> upload option \<Rightarrow> string option \<Rightarrow> string option
     \<Rightarrow> string option \<Rightarrow> server \<Rightarrow> 'n \<Rightarrow> (thrown + post_reply) \<times> server \<times> 'n" where
  "post_handler fs validate outputDir now file bodyEmailColumn bodySenderEmail bodySessionId st n =
     (case file of
        None \<Rightarrow> (Inr NoFileUploaded, st, n)
      | Some f \<Rightarrow>
          let emailColumn = str_or bodyEmailColumn ''email'';
              senderEmail = bodySenderEmail;
              inputPath = path f;
              outputFilename = ''validated-'' @ show_nat now @ ''-'' @ originalname f;
              outputPath = path_join outputDir outputFilename;
              sessionId = str_or_null bodySessionId;
              downloadUrl = ''/api/download/'' @ outputFilename in
          case (case sessionId of
                  Some sid \<Rightarrow>
                    processXLSXFileWithSSE fs validate inputPath outputPath emailColumn
                      senderEmail sid (Some (sendSSEMessage sid)) st n
                | None \<Rightarrow>
                    (case processXLSXFile fs validate inputPath outputPath emailColumn
                            senderEmail n of
                       (r, n') \<Rightarrow> (r, st, n'))) of
            (Inl error, st1, n1) \<Rightarrow> post_catch fs file bodySessionId error st1 n1
          | (Inr stats, st1, n1) \<Rightarrow>
              (case unlinkSync fs inputPath of
                 Some error \<Rightarrow> post_catch fs file bodySessionId error st1 n1
               | None \<Rightarrow>
                   (case sessionId of
                      Some sid \<Rightarrow>
                        (case sendSSEMessage sid
                                (Complete \<lparr>total = total stats, valid = valid stats,
                                            invalid = invalid stats\<rparr>
                                   downloadUrl outputFilename) st1 of
                           (Some error, st2) \<Rightarrow> post_catch fs file bodySessionId error st2 n1
                         | (None, st2) \<Rightarrow>
                             (Inr (Completed \<lparr>total = total stats, valid = valid stats,
                                               invalid = invalid stats\<rparr>
                                     downloadUrl outputFilename True),
                              close_session sid st2, n1))
                    | None \<Rightarrow>
                        (Inr (Completed \<lparr>total = total stats, valid = valid stats,
                                          invalid = invalid stats\<rparr>
                                downloadUrl outputFilename False),
                         st1, n1))))"

section \<open>Auxiliary notions for the statements\<close>

text \<open>
  The \<^verbatim>\<open>email\<close> event that carries the fields \<^verbatim>\<open>email\<close>, \<^verbatim>\<open>valid\<close> and \<^verbatim>\<open>reason\<close> of
  a result object, and the callback applied to those fields.
\<close>

definition reason_of :: "ValidationResult \<Rightarrow> string option" where
  "reason_of r = (case get_prop r ''reason'' of JStr x \<Rightarrow> Some x | _ \<Rightarrow> None)"

definition email_event :: "ValidationResult \<Rightarrow> event" where
  "email_event r = Email (get_prop r ''email'') (truthy (get_prop r ''valid'')) (reason_of r)"

definition callback_on_result :: "'s callback option \<Rightarrow> ValidationResult \<Rightarrow> 's \<Rightarrow> 's" where
  "callback_on_result cb r s =
     snd (call_callback cb (get_prop r ''email'') (truthy (get_prop r ''valid'')) (reason_of r) s)"

text \<open>A response object whose \<^verbatim>\<open>write\<close> and \<^verbatim>\<open>flush\<close> do not throw.\<close>

definition healthy :: "channel \<Rightarrow> bool" where
  "healthy c = (write_throws c = None \<and> (case flush c of FlushThrows t \<Rightarrow> False | _ \<Rightarrow> True))"

text \<open>The server after the events \<open>evs\<close> have been written to the response \<open>a\<close>.\<close>

definition deliver :: "nat \<Rightarrow> event list \<Rightarrow> server \<Rightarrow> server" where
  "deliver a evs st =
     st\<lparr>responses := (responses st)(a := (responses st a)\<lparr>written := written (responses st a) @ evs\<rparr>)\<rparr>"

text \<open>
  A validator that computes its verdict from the address and the sender alone and keeps
  the log of its calls as its world.
\<close>

definition logged :: "(string \<Rightarrow> string \<Rightarrow> thrown + OutputFormat) \<Rightarrow> (string \<times> string) list validate" where
  "logged verdict e sender log = (verdict e sender, log @ [(e, sender)])"

section \<open>Example inputs\<close>

text \<open>
  A verdict function that throws on \<^verbatim>\<open>boom\<close>, accepts \<^verbatim>\<open>a@good.com\<close> and rejects
  every other address at the \<^verbatim>\<open>regex\<close> stage, and one that accepts every address; a
  file system whose workbook holds the
  given rows and whose operations succeed; a callback that throws on its first call
  only and counts its calls; a fresh response object and the server before any request.
\<close>

definition ex_verdict :: "string \<Rightarrow> string \<Rightarrow> thrown + OutputFormat" where
  "ex_verdict e sender =
     (if e = ''boom'' then Inl (ErrorObj ''dns timeout'')
      else Inr \<lparr>o_valid = (e = ''a@good.com''),
                o_reason = (if e = ''a@good.com'' then None else Some ''regex''),
                o_validators = JUndefined\<rparr>)"

definition ex_accept :: "string \<Rightarrow> string \<Rightarrow> thrown + OutputFormat" where
  "ex_accept e sender = Inr \<lparr>o_valid = True, o_reason = None, o_validators = JUndefined\<rparr>"

definition ex_validate :: "(string \<times> string) list validate" where
  "ex_validate = logged ex_verdict"

definition ex_io :: "EmailRow list \<Rightarrow> io" where
  "ex_io rows = \<lparr>xlsx_read = (\<lambda>p. Inr rows), xlsx_write = (\<lambda>r p. None),
                 unlinkSync = (\<lambda>p. None), existsSync = (\<lambda>p. True)\<rparr>"

definition ex_throw_once :: "nat callback" where
  "ex_throw_once email v reason calls =
     (if calls = 0 then Some (ErrorObj ''subscriber gone'') else None, Suc calls)"

definition ex_count :: "nat callback" where
  "ex_count email v reason calls = (None, Suc calls)"

definition fresh_channel :: channel where
  "fresh_channel = \<lparr>written = [], ended = False, write_throws = None, flush = NoFlush\<rparr>"

definition empty_server :: server where
  "empty_server = \<lparr>sseConnections = [], responses = (\<lambda>r. fresh_channel), next_ref = 0\<rparr>"

text \<open>
  A server whose only subscriber, for \<^verbatim>\<open>s1\<close>, has a response whose \<^verbatim>\<open>write\<close> throws;
  and the server after one registration of \<^verbatim>\<open>s1\<close>.
\<close>

definition ex_broken :: server where
  "ex_broken = \<lparr>sseConnections = [(''s1'', 0)],
                 responses = (\<lambda>r. fresh_channel\<lparr>write_throws := Some (ErrorObj ''EPIPE'')\<rparr>),
                 next_ref = 1\<rparr>"

definition ex_registered :: server where
  "ex_registered = snd (stream_handler (Some ''s1'') fresh_channel empty_server)"

lemmas ex_defs = ex_validate_def logged_def ex_verdict_def ex_io_def readEmailsFromXLSX_def
  writeResultsToXLSX_def

lemmas run_defs = validateEmails_def validate_row_def validateEmailsWithSSE_def sse_row_def
  sse_catch_def call_callback_def extract_email_def js_or_def get_prop_def read_prop_def
  row_prop_def plain_def sheet_row_def object_prototype_def first_field_def
  trim_def is_ws_def sender_or_def ok_result_def error_result_def invalid_result_def spread_def
  opt_str_def error_message_def Let_def

lemmas server_defs = sendSSEMessage_def try_catch_def send_body_def chan_write_def
  chan_flush_def chan_end_def stream_handler_def on_close_def close_session_def healthy_def
  fresh_channel_def empty_server_def Let_def

section \<open>Properties of validateEmails\<close>

declare show_nat.simps [simp del]

lemma get_prop_update:
  "get_prop (AList.update k v obj) k' = (if k' = k then v else get_prop obj k')"
  by (simp add: get_prop_def read_prop_def update_conv')

lemma validateEmails_loop_acc:
  "validateEmails_loop v c s rows acc n =
     (acc @ fst (validateEmails_loop v c s rows [] n), snd (validateEmails_loop v c s rows [] n))"
proof (induction rows arbitrary: acc n)
  case Nil
  show ?case by simp
next
  case (Cons row rest)
  obtain r n' where vr: "validate_row v c s row n = (r, n')"
    by (cases "validate_row v c s row n")
  have a: "validateEmails_loop v c s rest (acc @ [r]) n' =
             ((acc @ [r]) @ fst (validateEmails_loop v c s rest [] n'),
              snd (validateEmails_loop v c s rest [] n'))"
    by (rule Cons.IH)
  have b: "validateEmails_loop v c s rest [r] n' =
             ([r] @ fst (validateEmails_loop v c s rest [] n'),
              snd (validateEmails_loop v c s rest [] n'))"
    by (rule Cons.IH)
  show ?case by (simp add: vr a b)
qed

lemma validateEmails_Nil: "validateEmails v [] c s n = ([], n)"
  by (simp add: validateEmails_def)

lemma validateEmails_Cons:
  "validateEmails v (row # rest) c s n =
     (fst (validate_row v c s row n) # fst (validateEmails v rest c s (snd (validate_row v c s row n))),
      snd (validateEmails v rest c s (snd (validate_row v c s row n))))"
proof -
  obtain r n' where vr: "validate_row v c s row n = (r, n')"
    by (cases "validate_row v c s row n")
  have "validateEmails_loop v c s rest [r] n' =
          ([r] @ fst (validateEmails_loop v c s rest [] n'),
           snd (validateEmails_loop v c s rest [] n'))"
    by (rule validateEmails_loop_acc)
  then show ?thesis by (simp add: validateEmails_def vr)
qed

lemma validateEmails_length: "length (fst (validateEmails v rows c s n)) = length rows"
  by (induction rows arbitrary: n) (simp_all add: validateEmails_Nil validateEmails_Cons)

lemma validateEmails_nth:
  "i < length rows \<Longrightarrow>
     \<exists>m. fst (validateEmails v rows c s n) ! i = fst (validate_row v c s (rows ! i) m)"
proof (induction rows arbitrary: n i)
  case Nil
  then show ?case by simp
next
  case (Cons row rest)
  show ?case
  proof (cases i)
    case 0
    then show ?thesis by (auto simp: validateEmails_Cons)
  next
    case (Suc j)
    with Cons.prems have "j < length rest" by simp
    from Cons.IH[OF this] show ?thesis using Suc by (simp add: validateEmails_Cons)
  qed
qed

lemma validateEmails_append:
  "validateEmails v (xs @ ys) c s n =
     (fst (validateEmails v xs c s n) @ fst (validateEmails v ys c s (snd (validateEmails v xs c s n))),
      snd (validateEmails v ys c s (snd (validateEmails v xs c s n))))"
  by (induction xs arbitrary: n) (simp_all add: validateEmails_Nil validateEmails_Cons)

lemma validate_row_valid_bool:
  "\<exists>b. get_prop (fst (validate_row v c s row n)) ''valid'' = JBool b"
  by (auto simp: validate_row_def Let_def invalid_result_def ok_result_def error_result_def
        spread_def get_prop_update split: prod.splits sum.splits)

lemma validateEmails_valid_bool:
  "r \<in> set (fst (validateEmails v rows c s n)) \<Longrightarrow> \<exists>b. get_prop r ''valid'' = JBool b"
proof -
  assume "r \<in> set (fst (validateEmails v rows c s n))"
  then obtain i where i: "i < length rows" and r: "r = fst (validateEmails v rows c s n) ! i"
    by (auto simp: in_set_conv_nth validateEmails_length)
  from validateEmails_nth[OF i, of v c s n] obtain m where
    "fst (validateEmails v rows c s n) ! i = fst (validate_row v c s (rows ! i) m)" ..
  with r show ?thesis using validate_row_valid_bool[of v c s "rows ! i" m] by simp
qed


lemma validate_row_extraction_failed:
  "\<not> truthy (extract_email row c) \<or> typeof (extract_email row c) \<noteq> ''string'' \<Longrightarrow>
     validate_row v c s row n = (invalid_result row (extract_email row c), n)"
  by (simp add: validate_row_def Let_def)

lemma count_valid_eq:
  "count_valid (fst (validateEmails v rows c s n)) =
     length (filter (\<lambda>r. get_prop r ''valid'' = JBool True) (fst (validateEmails v rows c s n)))"
  unfolding count_valid_def
  by (rule arg_cong[where f = length], rule filter_cong[OF refl])
     (auto dest: validateEmails_valid_bool)

lemma count_invalid_eq:
  "count_invalid (fst (validateEmails v rows c s n)) =
     length (filter (\<lambda>r. get_prop r ''valid'' = JBool False) (fst (validateEmails v rows c s n)))"
  unfolding count_invalid_def
  by (rule arg_cong[where f = length], rule filter_cong[OF refl])
     (auto dest: validateEmails_valid_bool)

lemma count_valid_invalid: "count_valid rs + count_invalid rs = length rs"
  unfolding count_valid_def count_invalid_def by (rule sum_length_filter_compl)

lemma invalid_result_valid: "get_prop (invalid_result row e) ''valid'' = JBool False"
  by (simp add: invalid_result_def spread_def get_prop_update)

text \<open>
  C1. For a non-empty row sequence read from the workbook, and when writing the result
  workbook does not throw, \<^verbatim>\<open>processXLSXFile\<close> returns stats whose \<open>total\<close> is the
  number of input rows, whose \<open>valid\<close> and \<open>invalid\<close> add up to \<open>total\<close>, where
  \<open>valid\<close> counts the results of \<^verbatim>\<open>validateEmails\<close> with \<^verbatim>\<open>valid: true\<close> and
  \<open>invalid\<close> those with \<^verbatim>\<open>valid: false\<close>; there is one result per row, and a row
  whose address extraction failed has a result with \<^verbatim>\<open>valid: false\<close>.
\<close>

theorem processXLSXFile_stats:
  assumes "readEmailsFromXLSX fs inputPath = Inr emails"
    and "emails \<noteq> []"
    and "writeResultsToXLSX fs (fst (validateEmails validate emails emailColumn senderEmail n))
           outputPath = None"
  shows "let results = fst (validateEmails validate emails emailColumn senderEmail n) in
         \<exists>st. fst (processXLSXFile fs validate inputPath outputPath emailColumn senderEmail n) = Inr st
           \<and> length results = length emails
           \<and> total st = length emails
           \<and> valid st + invalid st = total st
           \<and> valid st = length (filter (\<lambda>r. get_prop r ''valid'' = JBool True) results)
           \<and> invalid st = length (filter (\<lambda>r. get_prop r ''valid'' = JBool False) results)
           \<and> (\<forall>i<length emails.
                 \<not> truthy (extract_email (emails ! i) emailColumn)
                 \<or> typeof (extract_email (emails ! i) emailColumn) \<noteq> ''string''
                 \<longrightarrow> get_prop (results ! i) ''valid'' = JBool False)"
proof -
  define results where "results = fst (validateEmails validate emails emailColumn senderEmail n)"
  define st where "st = \<lparr>total = length results, valid = count_valid results,
                          invalid = count_invalid results\<rparr>"
  have len: "length results = length emails"
    by (simp add: results_def validateEmails_length)
  have run: "fst (processXLSXFile fs validate inputPath outputPath emailColumn senderEmail n) = Inr st"
    using assms by (simp add: processXLSXFile_def results_def st_def case_prod_beta)
  have failed: "get_prop (results ! i) ''valid'' = JBool False"
    if i: "i < length emails"
      and f: "\<not> truthy (extract_email (emails ! i) emailColumn)
              \<or> typeof (extract_email (emails ! i) emailColumn) \<noteq> ''string''" for i
  proof -
    from validateEmails_nth[OF i, of validate emailColumn senderEmail n] obtain m where
      "results ! i = fst (validate_row validate emailColumn senderEmail (emails ! i) m)"
      unfolding results_def ..
    then show ?thesis
      by (simp add: validate_row_extraction_failed[OF f] invalid_result_valid)
  qed
  have "total st = length emails" by (simp add: st_def len)
  moreover have "valid st + invalid st = total st"
    by (simp add: st_def count_valid_invalid)
  moreover have "valid st = length (filter (\<lambda>r. get_prop r ''valid'' = JBool True) results)"
    by (simp add: st_def results_def count_valid_eq)
  moreover have "invalid st = length (filter (\<lambda>r. get_prop r ''valid'' = JBool False) results)"
    by (simp add: st_def results_def count_invalid_eq)
  ultimately show ?thesis
    using run len failed unfolding Let_def results_def[symmetric] by blast
qed

theorem processXLSXFile_stats_witness:
  "readEmailsFromXLSX
     (ex_io [plain [(''email'', JStr ''a@good.com'')], plain [(''email'', JStr ''bad'')], plain [(''email'', JNum 7)]])
     ''in.xlsx''
     = Inr [plain [(''email'', JStr ''a@good.com'')], plain [(''email'', JStr ''bad'')], plain [(''email'', JNum 7)]]
   \<and> (\<exists>st. fst (processXLSXFile
          (ex_io [plain [(''email'', JStr ''a@good.com'')], plain [(''email'', JStr ''bad'')], plain [(''email'', JNum 7)]])
          ex_validate ''in.xlsx'' ''out.xlsx'' ''email'' None []) = Inr st
        \<and> total st = 3 \<and> valid st + invalid st = 3)"
proof -
  let ?rows = "[plain [(''email'', JStr ''a@good.com'')], plain [(''email'', JStr ''bad'')], plain [(''email'', JNum 7)]]"
  have h1: "readEmailsFromXLSX (ex_io ?rows) ''in.xlsx'' = Inr ?rows"
    by (simp add: ex_defs)
  have h2: "?rows \<noteq> []" by simp
  have h3: "writeResultsToXLSX (ex_io ?rows)
              (fst (validateEmails ex_validate ?rows ''email'' None [])) ''out.xlsx'' = None"
    by (simp add: ex_defs)
  show ?thesis
    using h1 processXLSXFile_stats[OF h1 h2 h3] by (auto simp: Let_def)
qed

section \<open>validateEmailsWithSSE against validateEmails\<close>

lemma case_callback_no_throw:
  assumes "\<forall>e v r s. fst (call_callback cb e v r s) = None"
  shows "(case call_callback cb e v r s of (None, s') \<Rightarrow> P s' | (Some t, s') \<Rightarrow> Q t s')
           = P (snd (call_callback cb e v r s))"
proof -
  obtain x s' where c: "call_callback cb e v r s = (x, s')"
    by (cases "call_callback cb e v r s")
  with assms have "x = None" by (metis fst_conv)
  with c show ?thesis by simp
qed

lemma result_fields:
  "get_prop (invalid_result row e) ''email'' = js_or e (JStr [])"
  "get_prop (invalid_result row e) ''valid'' = JBool False"
  "get_prop (invalid_result row e) ''reason'' = JStr ''Invalid email format''"
  "get_prop (ok_result row a out) ''email'' = JStr a"
  "get_prop (ok_result row a out) ''valid'' = JBool (o_valid out)"
  "get_prop (ok_result row a out) ''reason'' = opt_str (o_reason out)"
  "get_prop (error_result row a m) ''email'' = JStr a"
  "get_prop (error_result row a m) ''valid'' = JBool False"
  "get_prop (error_result row a m) ''reason'' = JStr (''Validation error: '' @ m)"
  by (simp_all add: invalid_result_def ok_result_def error_result_def spread_def get_prop_update)

lemma reason_of_opt_str: "(case opt_str r of JStr x \<Rightarrow> Some x | _ \<Rightarrow> None) = r"
  by (cases r) (simp_all add: opt_str_def)

lemma sse_row_no_throw:
  assumes nt: "\<forall>e v r s. fst (call_callback cb e v r s) = None"
  shows "sse_row v c sd cb row acc s n =
           (Inr (acc @ [fst (validate_row v c sd row n)]),
            callback_on_result cb (fst (validate_row v c sd row n)) s,
            snd (validate_row v c sd row n))"
proof (cases "\<not> truthy (extract_email row c) \<or> typeof (extract_email row c) \<noteq> ''string''")
  case True
  then show ?thesis
    by (simp add: sse_row_def validate_row_def Let_def case_callback_no_throw[OF nt]
          callback_on_result_def reason_of_def result_fields)
next
  case False
  obtain x n' where vv: "v (trim (str_val (extract_email row c)))
                           (sender_or sd (trim (str_val (extract_email row c)))) n = (x, n')"
    by (cases "v (trim (str_val (extract_email row c))) (sender_or sd (trim (str_val (extract_email row c)))) n")
  show ?thesis
  proof (cases x)
    case (Inl err)
    with False vv show ?thesis
      by (simp add: sse_row_def validate_row_def sse_catch_def Let_def case_callback_no_throw[OF nt]
            callback_on_result_def reason_of_def result_fields)
  next
    case (Inr out)
    with False vv show ?thesis
      by (simp add: sse_row_def validate_row_def Let_def case_callback_no_throw[OF nt]
            callback_on_result_def reason_of_def result_fields reason_of_opt_str)
  qed
qed

lemma validateEmailsWithSSE_loop_no_throw:
  assumes nt: "\<forall>e v r s. fst (call_callback cb e v r s) = None"
  shows "validateEmailsWithSSE_loop v c sd cb rows acc s n =
           (Inr (acc @ fst (validateEmails v rows c sd n)),
            foldl (\<lambda>s r. callback_on_result cb r s) s (fst (validateEmails v rows c sd n)),
            snd (validateEmails v rows c sd n))"
proof (induction rows arbitrary: acc s n)
  case Nil
  show ?case by (simp add: validateEmails_Nil)
next
  case (Cons row rest)
  show ?case
    by (simp add: sse_row_no_throw[OF nt] Cons.IH validateEmails_Cons)
qed

lemma validateEmailsWithSSE_no_throw:
  assumes nt: "\<forall>e v r s. fst (call_callback cb e v r s) = None"
  shows "validateEmailsWithSSE v rows c sd cb s n =
           (Inr (fst (validateEmails v rows c sd n)),
            foldl (\<lambda>s r. callback_on_result cb r s) s (fst (validateEmails v rows c sd n)),
            snd (validateEmails v rows c sd n))"
  by (simp add: validateEmailsWithSSE_def validateEmailsWithSSE_loop_no_throw[OF nt])

lemma case_sendSSE_no_throw:
  assumes "\<forall>ev s. fst (call_sendSSE sendSSE ev s) = None"
  shows "(case call_sendSSE sendSSE ev s of (None, s') \<Rightarrow> P s' | (Some t, s') \<Rightarrow> Q t s')
           = P (snd (call_sendSSE sendSSE ev s))"
    and "(case call_sendSSE sendSSE ev s of (Some t, s') \<Rightarrow> Q t s' | (None, s') \<Rightarrow> P s')
           = P (snd (call_sendSSE sendSSE ev s))"
proof -
  obtain x s' where c: "call_sendSSE sendSSE ev s = (x, s')"
    by (cases "call_sendSSE sendSSE ev s")
  with assms have "x = None" by (metis fst_conv)
  with c show "(case call_sendSSE sendSSE ev s of (None, s') \<Rightarrow> P s' | (Some t, s') \<Rightarrow> Q t s')
           = P (snd (call_sendSSE sendSSE ev s))"
    and "(case call_sendSSE sendSSE ev s of (Some t, s') \<Rightarrow> Q t s' | (None, s') \<Rightarrow> P s')
           = P (snd (call_sendSSE sendSSE ev s))" by simp_all
qed

lemma processXLSXFileWithSSE_no_throw:
  assumes nt: "\<forall>ev s. fst (call_sendSSE sendSSE ev s) = None"
    and rd: "readEmailsFromXLSX fs ip = Inr emails"
    and ne: "emails \<noteq> []"
  shows "processXLSXFileWithSSE fs v ip op c sd sid sendSSE s n =
           (let results = fst (validateEmails v emails c sd n);
                s1 = snd (call_sendSSE sendSSE (Start (length emails)) s);
                s2 = foldl (\<lambda>s r. snd (call_sendSSE sendSSE (email_event r) s)) s1 results
            in (case writeResultsToXLSX fs results op of
                  Some error \<Rightarrow> Inl error
                | None \<Rightarrow> Inr \<lparr>total = length results, valid = count_valid results,
                                invalid = count_invalid results\<rparr>,
                s2, snd (validateEmails v emails c sd n)))"
proof -
  let ?cb = "Some (\<lambda>email v reason. call_sendSSE sendSSE (Email email v reason))"
  have cb: "\<forall>e v r s. fst (call_callback ?cb e v r s) = None"
    using nt by (simp add: call_callback_def)
  have fold: "(\<lambda>s r. callback_on_result ?cb r s) = (\<lambda>s r. snd (call_sendSSE sendSSE (email_event r) s))"
    by (simp add: callback_on_result_def call_callback_def email_event_def)
  show ?thesis
    using rd ne
    by (simp add: processXLSXFileWithSSE_def case_sendSSE_no_throw[OF nt]
          validateEmailsWithSSE_no_throw[OF cb] fold Let_def split: option.splits)
qed

lemma processXLSXFileWithSSE_same_stats:
  assumes nt: "\<forall>ev s. fst (call_sendSSE sendSSE ev s) = None"
  shows "fst (processXLSXFileWithSSE fs v ip op c sd sid sendSSE s n) =
         fst (processXLSXFile fs v ip op c sd n)"
proof (cases "readEmailsFromXLSX fs ip")
  case (Inl e)
  then show ?thesis by (simp add: processXLSXFileWithSSE_def processXLSXFile_def)
next
  case (Inr emails)
  show ?thesis
  proof (cases "emails = []")
    case True
    with Inr show ?thesis
      by (simp add: processXLSXFileWithSSE_def processXLSXFile_def case_sendSSE_no_throw[OF nt])
  next
    case False
    with Inr show ?thesis
      by (simp add: processXLSXFileWithSSE_no_throw[OF nt Inr False] processXLSXFile_def Let_def
            case_prod_beta split: option.splits)
  qed
qed

text \<open>
  C2 (as amended). For every row sequence, email column and sender, and every callback
  that returns normally on each call (or no callback at all), \<^verbatim>\<open>validateEmailsWithSSE\<close>
  returns exactly the results of \<^verbatim>\<open>validateEmails\<close> and leaves the validator's world
  in the same state; and for every \<^verbatim>\<open>sendSSE\<close> that returns normally,
  \<^verbatim>\<open>processXLSXFileWithSSE\<close> returns what \<^verbatim>\<open>processXLSXFile\<close> returns, stats or
  exception.
\<close>

theorem validateEmailsWithSSE_same_results:
  assumes "\<forall>e v r s. fst (call_callback onEmailValidated e v r s) = None"
    and "\<forall>ev s. fst (call_sendSSE sendSSE ev s) = None"
  shows "fst (validateEmailsWithSSE validate emails emailColumn senderEmail onEmailValidated s n)
           = Inr (fst (validateEmails validate emails emailColumn senderEmail n))
       \<and> snd (snd (validateEmailsWithSSE validate emails emailColumn senderEmail onEmailValidated s n))
           = snd (validateEmails validate emails emailColumn senderEmail n)
       \<and> fst (processXLSXFileWithSSE fs validate inputPath outputPath emailColumn senderEmail
                sessionId sendSSE s' n)
           = fst (processXLSXFile fs validate inputPath outputPath emailColumn senderEmail n)"
  using assms
  by (simp add: validateEmailsWithSSE_no_throw processXLSXFileWithSSE_same_stats)

theorem validateEmailsWithSSE_same_results_witness:
  "fst (validateEmailsWithSSE ex_validate
          [plain [(''email'', JStr ''a@good.com'')], plain [(''email'', JStr ''boom'')]] ''email'' None
          (Some ex_count) 0 [])
     = Inr (fst (validateEmails ex_validate
          [plain [(''email'', JStr ''a@good.com'')], plain [(''email'', JStr ''boom'')]] ''email'' None []))
   \<and> fst (validateEmails ex_validate
          [plain [(''email'', JStr ''a@good.com'')], plain [(''email'', JStr ''boom'')]] ''email'' None [])
     = [[(''email'', JStr ''a@good.com''), (''valid'', JBool True), (''reason'', JUndefined),
         (''validators'', JUndefined)],
        [(''email'', JStr ''boom''), (''valid'', JBool False),
         (''reason'', JStr ''Validation error: dns timeout'')]]"
proof -
  have h1: "\<forall>e v r s. fst (call_callback (Some ex_count) e v r s) = None"
    by (simp add: call_callback_def ex_count_def)
  have h2: "\<forall>ev s. fst (call_sendSSE (None :: nat sender option) ev s) = None"
    by (simp add: call_sendSSE_def)
  have "fst (validateEmails ex_validate
          [plain [(''email'', JStr ''a@good.com'')], plain [(''email'', JStr ''boom'')]] ''email'' None [])
     = [[(''email'', JStr ''a@good.com''), (''valid'', JBool True), (''reason'', JUndefined),
         (''validators'', JUndefined)],
        [(''email'', JStr ''boom''), (''valid'', JBool False),
         (''reason'', JStr ''Validation error: dns timeout'')]]"
    by (simp add: run_defs ex_defs)
  then show ?thesis
    using validateEmailsWithSSE_same_results[OF h1 h2, of ex_validate
            "[plain [(''email'', JStr ''a@good.com'')], plain [(''email'', JStr ''boom'')]]" "''email''" None 0 "[]"]
    by simp
qed

text \<open>
  C2 as stated, for any callback, fails. Nothing isolates the callback: when it
  throws for a row without an address, the exception leaves \<^verbatim>\<open>validateEmailsWithSSE\<close>
  and there are no results at all; when it throws for a validated row, it is caught by
  the \<^verbatim>\<open>try\<close> around the validation, so the row gets a second result, a validation
  error, after its verdict.
\<close>

theorem validateEmailsWithSSE_throwing_callback_counterexample:
  "fst (validateEmailsWithSSE ex_validate [plain [(''email'', JStr ''a@good.com'')]] ''email'' None
          (Some ex_throw_once) 0 [])
     \<noteq> Inr (fst (validateEmails ex_validate [plain [(''email'', JStr ''a@good.com'')]] ''email'' None []))
   \<and> fst (validateEmailsWithSSE ex_validate [plain [(''email'', JStr ''a@good.com'')]] ''email'' None
          (Some ex_throw_once) 0 [])
     = Inr [[(''email'', JStr ''a@good.com''), (''valid'', JBool True), (''reason'', JUndefined),
             (''validators'', JUndefined)],
            [(''email'', JStr ''a@good.com''), (''valid'', JBool False),
             (''reason'', JStr ''Validation error: subscriber gone'')]]
   \<and> fst (validateEmails ex_validate [plain [(''email'', JStr ''a@good.com'')]] ''email'' None [])
     = [[(''email'', JStr ''a@good.com''), (''valid'', JBool True), (''reason'', JUndefined),
         (''validators'', JUndefined)]]
   \<and> fst (validateEmailsWithSSE ex_validate [plain [(''id'', JNum 7)]] ''email'' None
          (Some ex_throw_once) 0 [])
     = Inl (ErrorObj ''subscriber gone'')
   \<and> fst (validateEmails ex_validate [plain [(''id'', JNum 7)]] ''email'' None [])
     = [[(''id'', JNum 7), (''email'', JNum 7), (''valid'', JBool False),
         (''reason'', JStr ''Invalid email format'')]]"
  by (simp add: run_defs ex_defs ex_throw_once_def)

section \<open>Rows, addresses and passthrough columns\<close>

lemma map_of_spread:
  "k \<notin> fst ` set kvs \<Longrightarrow> map_of (spread row kvs) k = map_of row k"
  unfolding spread_def
  by (induction kvs arbitrary: row) (auto simp: update_conv')

lemma validate_row_passthrough:
  assumes "k \<notin> {''email'', ''valid'', ''reason'', ''validators''}"
  shows "map_of (fst (validate_row v c sd row n)) k = map_of (columns row) k"
  using assms
  by (auto simp: validate_row_def Let_def invalid_result_def ok_result_def error_result_def
        map_of_spread split: prod.splits sum.splits)

lemma validate_row_throws:
  assumes "truthy (extract_email row c)" and "typeof (extract_email row c) = ''string''"
    and "validate (trim (str_val (extract_email row c)))
           (sender_or sd (trim (str_val (extract_email row c)))) n = (Inl err, n')"
  shows "validate_row validate c sd row n =
           (error_result row (trim (str_val (extract_email row c))) (error_message err), n')"
  using assms by (simp add: validate_row_def Let_def)

lemma validateEmails_middle:
  "validateEmails v (before @ row # after) c sd n =
     (fst (validateEmails v before c sd n)
        @ fst (validate_row v c sd row (snd (validateEmails v before c sd n)))
        # fst (validateEmails v after c sd
                 (snd (validate_row v c sd row (snd (validateEmails v before c sd n))))),
      snd (validateEmails v after c sd
             (snd (validate_row v c sd row (snd (validateEmails v before c sd n))))))"
  by (simp add: validateEmails_append validateEmails_Cons)

lemma validate_row_logged:
  "snd (validate_row (logged verdict) c sd row log) =
     (if truthy (extract_email row c) \<and> typeof (extract_email row c) = ''string''
      then log @ [(trim (str_val (extract_email row c)),
                   sender_or sd (trim (str_val (extract_email row c))))]
      else log)"
  by (auto simp: validate_row_def logged_def Let_def split: sum.splits)

lemma validateEmails_logged:
  "snd (validateEmails (logged verdict) rows c sd log) =
     log @ map (\<lambda>row. (trim (str_val (extract_email row c)),
                        sender_or sd (trim (str_val (extract_email row c)))))
             (filter (\<lambda>row. truthy (extract_email row c) \<and> typeof (extract_email row c) = ''string'')
                rows)"
  by (induction rows arbitrary: log)
     (simp_all add: validateEmails_Nil validateEmails_Cons validate_row_logged)

lemma validate_row_email:
  "get_prop (fst (validate_row v c sd row n)) ''email'' =
     (if truthy (extract_email row c) \<and> typeof (extract_email row c) = ''string''
      then JStr (trim (str_val (extract_email row c)))
      else js_or (extract_email row c) (JStr []))"
  by (auto simp: validate_row_def Let_def result_fields split: prod.splits sum.splits)

text \<open>
  C5. When the validator throws for a row (whose extracted address is a non-empty
  string), \<^verbatim>\<open>validateEmails\<close> records that row as an object with \<^verbatim>\<open>valid: false\<close> and
  the reason \<^verbatim>\<open>Validation error: <message>\<close>, which is none of the stage names
  \<^verbatim>\<open>regex\<close>, \<^verbatim>\<open>typo\<close>, \<^verbatim>\<open>disposable\<close>, \<^verbatim>\<open>mx\<close>, \<^verbatim>\<open>smtp\<close> a verdict names and not the
  reason of a missing address; the function still returns, with the results of the rows
  before it, this result, and the results of all rows after it, validated from the world
  the failed call left. \<^verbatim>\<open>validateEmailsWithSSE\<close> returns the same results when its
  callback returns normally.
\<close>

theorem validation_exception_contained:
  assumes "truthy (extract_email row c)"
    and "typeof (extract_email row c) = ''string''"
    and "a = trim (str_val (extract_email row c))"
    and "validate a (sender_or sd a) (snd (validateEmails validate before c sd n)) = (Inl err, n')"
  shows "validateEmails validate (before @ row # after) c sd n =
           (fst (validateEmails validate before c sd n)
              @ error_result row a (error_message err)
              # fst (validateEmails validate after c sd n'),
            snd (validateEmails validate after c sd n'))
       \<and> get_prop (error_result row a (error_message err)) ''valid'' = JBool False
       \<and> get_prop (error_result row a (error_message err)) ''reason''
           = JStr (''Validation error: '' @ error_message err)
       \<and> ''Validation error: '' @ error_message err
           \<notin> {''regex'', ''typo'', ''disposable'', ''mx'', ''smtp'', ''Invalid email format''}
       \<and> ((\<forall>e v r s. fst (call_callback cb e v r s) = None) \<longrightarrow>
            fst (validateEmailsWithSSE validate (before @ row # after) c sd cb s n) =
              Inr (fst (validateEmails validate before c sd n)
                     @ error_result row a (error_message err)
                     # fst (validateEmails validate after c sd n')))"
proof -
  have vr: "validate_row validate c sd row (snd (validateEmails validate before c sd n)) =
              (error_result row a (error_message err), n')"
    using assms validate_row_throws[of row c validate sd] by simp
  have main: "validateEmails validate (before @ row # after) c sd n =
           (fst (validateEmails validate before c sd n)
              @ error_result row a (error_message err)
              # fst (validateEmails validate after c sd n'),
            snd (validateEmails validate after c sd n'))"
    by (simp add: validateEmails_middle vr)
  have sse: "fst (validateEmailsWithSSE validate (before @ row # after) c sd cb s n) =
              Inr (fst (validateEmails validate before c sd n)
                     @ error_result row a (error_message err)
                     # fst (validateEmails validate after c sd n'))"
    if "\<forall>e v r s. fst (call_callback cb e v r s) = None"
    by (simp add: validateEmailsWithSSE_no_throw[OF that] main)
  show ?thesis
    using main sse by (simp add: result_fields)
qed

theorem validation_exception_contained_witness:
  "truthy (extract_email (plain [(''email'', JStr '' boom '')]) ''email'')
   \<and> typeof (extract_email (plain [(''email'', JStr '' boom '')]) ''email'') = ''string''
   \<and> ex_validate ''boom'' ''boom'' [(''a@good.com'', ''a@good.com'')]
       = (Inl (ErrorObj ''dns timeout''), [(''a@good.com'', ''a@good.com''), (''boom'', ''boom'')])
   \<and> validateEmails ex_validate
         ([plain [(''email'', JStr ''a@good.com'')]] @ plain [(''email'', JStr '' boom '')] # [plain [(''email'', JStr ''bad'')]])
         ''email'' None []
       = ([[(''email'', JStr ''a@good.com''), (''valid'', JBool True), (''reason'', JUndefined),
            (''validators'', JUndefined)],
           [(''email'', JStr ''boom''), (''valid'', JBool False),
            (''reason'', JStr ''Validation error: dns timeout'')],
           [(''email'', JStr ''bad''), (''valid'', JBool False), (''reason'', JStr ''regex''),
            (''validators'', JUndefined)]],
          [(''a@good.com'', ''a@good.com''), (''boom'', ''boom''), (''bad'', ''bad'')])"
proof -
  let ?row = "plain [(''email'', JStr '' boom '')]"
  let ?before = "[plain [(''email'', JStr ''a@good.com'')]]"
  have h1: "truthy (extract_email ?row ''email'')"
    by (simp add: run_defs)
  have h2: "typeof (extract_email ?row ''email'') = ''string''"
    by (simp add: run_defs)
  have h3: "''boom'' = trim (str_val (extract_email ?row ''email''))"
    by (simp add: run_defs)
  have h4: "ex_validate ''boom'' (sender_or None ''boom'')
              (snd (validateEmails ex_validate ?before ''email'' None []))
            = (Inl (ErrorObj ''dns timeout''), [(''a@good.com'', ''a@good.com''), (''boom'', ''boom'')])"
    by (simp add: run_defs ex_defs)
  have h5: "ex_validate ''boom'' ''boom'' [(''a@good.com'', ''a@good.com'')]
       = (Inl (ErrorObj ''dns timeout''), [(''a@good.com'', ''a@good.com''), (''boom'', ''boom'')])"
    by (simp add: ex_defs)
  show ?thesis
    using h1 h2 h5
      validation_exception_contained[where row = ?row and c = "''email''" and a = "''boom''"
        and validate = ex_validate and sd = None and before = ?before and n = "[]"
        and err = "ErrorObj ''dns timeout''"
        and n' = "[(''a@good.com'', ''a@good.com''), (''boom'', ''boom'')]"
        and after = "[plain [(''email'', JStr ''bad'')]]" and cb = None and s = "0::nat",
        OF h1 h2 h3 h4]
    by (simp add: run_defs ex_defs)
qed

text \<open>
  C6 (as amended). The test is made on the value as extracted, before trimming. A row
  whose extracted value is falsy (missing, empty string, 0, false, null) or not a string
  is recorded as the row with \<^verbatim>\<open>email: email || ''\<close>, \<^verbatim>\<open>valid: false\<close> and the reason
  \<^verbatim>\<open>Invalid email format\<close>, whatever the validator is and without changing its world:
  the validator is not called, so the call log of a batch with the row is the call log of
  the batch without it. The rows before and after it are processed as usual, in
  \<^verbatim>\<open>validateEmails\<close> and, for a callback that returns normally, in
  \<^verbatim>\<open>validateEmailsWithSSE\<close>. A row whose extracted value is a non-empty string is
  submitted to the validator with its trimmed value, also when that is the empty
  address, and gets the validator's verdict.
\<close>

theorem missing_address_not_validated:
  "(\<not> truthy (extract_email row c) \<or> typeof (extract_email row c) \<noteq> ''string'' \<longrightarrow>
      validate_row validate c sd row n = (invalid_result row (extract_email row c), n)
       \<and> validateEmails validate (before @ row # after) c sd n =
           (fst (validateEmails validate before c sd n)
              @ invalid_result row (extract_email row c)
              # fst (validateEmails validate after c sd (snd (validateEmails validate before c sd n))),
            snd (validateEmails validate after c sd (snd (validateEmails validate before c sd n))))
       \<and> get_prop (invalid_result row (extract_email row c)) ''valid'' = JBool False
       \<and> get_prop (invalid_result row (extract_email row c)) ''reason'' = JStr ''Invalid email format''
       \<and> get_prop (invalid_result row (extract_email row c)) ''email''
           = js_or (extract_email row c) (JStr [])
       \<and> snd (validateEmails (logged verdict) (before @ row # after) c sd log)
           = snd (validateEmails (logged verdict) (before @ after) c sd log)
       \<and> ((\<forall>e v r s. fst (call_callback cb e v r s) = None) \<longrightarrow>
            fst (validateEmailsWithSSE validate (before @ row # after) c sd cb s n) =
              Inr (fst (validateEmails validate before c sd n)
                     @ invalid_result row (extract_email row c)
                     # fst (validateEmails validate after c sd
                              (snd (validateEmails validate before c sd n))))))
   \<and> (truthy (extract_email row c) \<and> typeof (extract_email row c) = ''string'' \<longrightarrow>
      snd (validate_row (logged verdict) c sd row log)
        = log @ [(trim (str_val (extract_email row c)),
                  sender_or sd (trim (str_val (extract_email row c))))]
      \<and> validate_row validate c sd row n =
          (case validate (trim (str_val (extract_email row c)))
                  (sender_or sd (trim (str_val (extract_email row c)))) n of
             (Inr validationResult, n') \<Rightarrow>
               (ok_result row (trim (str_val (extract_email row c))) validationResult, n')
           | (Inl error, n') \<Rightarrow>
               (error_result row (trim (str_val (extract_email row c))) (error_message error), n')))"
proof -
  have part1: "validate_row validate c sd row n = (invalid_result row (extract_email row c), n)
       \<and> validateEmails validate (before @ row # after) c sd n =
           (fst (validateEmails validate before c sd n)
              @ invalid_result row (extract_email row c)
              # fst (validateEmails validate after c sd (snd (validateEmails validate before c sd n))),
            snd (validateEmails validate after c sd (snd (validateEmails validate before c sd n))))
       \<and> get_prop (invalid_result row (extract_email row c)) ''valid'' = JBool False
       \<and> get_prop (invalid_result row (extract_email row c)) ''reason'' = JStr ''Invalid email format''
       \<and> get_prop (invalid_result row (extract_email row c)) ''email''
           = js_or (extract_email row c) (JStr [])
       \<and> snd (validateEmails (logged verdict) (before @ row # after) c sd log)
           = snd (validateEmails (logged verdict) (before @ after) c sd log)
       \<and> ((\<forall>e v r s. fst (call_callback cb e v r s) = None) \<longrightarrow>
            fst (validateEmailsWithSSE validate (before @ row # after) c sd cb s n) =
              Inr (fst (validateEmails validate before c sd n)
                     @ invalid_result row (extract_email row c)
                     # fst (validateEmails validate after c sd
                              (snd (validateEmails validate before c sd n)))))"
    if failed: "\<not> truthy (extract_email row c) \<or> typeof (extract_email row c) \<noteq> ''string''"
  proof -
    have vr: "\<And>v m. validate_row v c sd row m = (invalid_result row (extract_email row c), m)"
      using failed by (rule validate_row_extraction_failed)
    have main: "validateEmails validate (before @ row # after) c sd n =
             (fst (validateEmails validate before c sd n)
                @ invalid_result row (extract_email row c)
                # fst (validateEmails validate after c sd (snd (validateEmails validate before c sd n))),
              snd (validateEmails validate after c sd (snd (validateEmails validate before c sd n))))"
      by (simp add: validateEmails_middle vr)
    have log: "snd (validateEmails (logged verdict) (before @ row # after) c sd log)
             = snd (validateEmails (logged verdict) (before @ after) c sd log)"
      by (simp add: validateEmails_append validateEmails_Cons vr)
    have sse: "fst (validateEmailsWithSSE validate (before @ row # after) c sd cb s n) =
                Inr (fst (validateEmails validate before c sd n)
                       @ invalid_result row (extract_email row c)
                       # fst (validateEmails validate after c sd
                                (snd (validateEmails validate before c sd n))))"
      if "\<forall>e v r s. fst (call_callback cb e v r s) = None"
      by (simp add: validateEmailsWithSSE_no_throw[OF that] main)
    show ?thesis
      using vr main log sse by (simp add: result_fields)
  qed
  have part2: "snd (validate_row (logged verdict) c sd row log)
        = log @ [(trim (str_val (extract_email row c)),
                  sender_or sd (trim (str_val (extract_email row c))))]
      \<and> validate_row validate c sd row n =
          (case validate (trim (str_val (extract_email row c)))
                  (sender_or sd (trim (str_val (extract_email row c)))) n of
             (Inr validationResult, n') \<Rightarrow>
               (ok_result row (trim (str_val (extract_email row c))) validationResult, n')
           | (Inl error, n') \<Rightarrow>
               (error_result row (trim (str_val (extract_email row c))) (error_message error), n'))"
    if ok: "truthy (extract_email row c) \<and> typeof (extract_email row c) = ''string''"
    using ok by (simp add: validate_row_logged) (simp add: validate_row_def Let_def)
  show ?thesis
    using part1 part2 by blast
qed

theorem missing_address_not_validated_witness:
  "typeof (extract_email (plain [(''id'', JNum 7), (''name'', JStr ''x'')]) ''email'') = ''number''
   \<and> validateEmails ex_validate
         ([plain [(''email'', JStr ''a@good.com'')]] @ plain [(''id'', JNum 7), (''name'', JStr ''x'')]
            # [plain [(''email'', JStr ''bad'')]])
         ''email'' None []
       = ([[(''email'', JStr ''a@good.com''), (''valid'', JBool True), (''reason'', JUndefined),
            (''validators'', JUndefined)],
           [(''id'', JNum 7), (''name'', JStr ''x''), (''email'', JNum 7), (''valid'', JBool False),
            (''reason'', JStr ''Invalid email format'')],
           [(''email'', JStr ''bad''), (''valid'', JBool False), (''reason'', JStr ''regex''),
            (''validators'', JUndefined)]],
          [(''a@good.com'', ''a@good.com''), (''bad'', ''bad'')])
   \<and> truthy (extract_email (plain [(''email'', JStr '' bad '')]) ''email'')
   \<and> typeof (extract_email (plain [(''email'', JStr '' bad '')]) ''email'') = ''string''
   \<and> snd (validate_row ex_validate ''email'' None (plain [(''email'', JStr '' bad '')]) [])
       = [(''bad'', ''bad'')]"
proof -
  let ?row = "plain [(''id'', JNum 7), (''name'', JStr ''x'')]"
  let ?str = "plain [(''email'', JStr '' bad '')]"
  have h: "\<not> truthy (extract_email ?row ''email'') \<or> typeof (extract_email ?row ''email'') \<noteq> ''string''"
    by (simp add: run_defs)
  have h': "typeof (extract_email ?row ''email'') = ''number''"
    by (simp add: run_defs)
  have g: "truthy (extract_email ?str ''email'') \<and> typeof (extract_email ?str ''email'') = ''string''"
    by (simp add: run_defs)
  note t1 = missing_address_not_validated[where row = ?row and c = "''email''"
            and validate = ex_validate and sd = None and n = "[]"
            and before = "[plain [(''email'', JStr ''a@good.com'')]]"
            and after = "[plain [(''email'', JStr ''bad'')]]" and verdict = ex_verdict and log = "[]"
            and cb = None and s = "0::nat"]
  note t2 = missing_address_not_validated[where row = ?str and c = "''email''"
            and validate = ex_validate and sd = None and n = "[]"
            and before = "[]" and after = "[]" and verdict = ex_verdict and log = "[]"
            and cb = None and s = "0::nat"]
  have a: "validateEmails ex_validate
         ([plain [(''email'', JStr ''a@good.com'')]] @ ?row # [plain [(''email'', JStr ''bad'')]])
         ''email'' None []
       = ([[(''email'', JStr ''a@good.com''), (''valid'', JBool True), (''reason'', JUndefined),
            (''validators'', JUndefined)],
           [(''id'', JNum 7), (''name'', JStr ''x''), (''email'', JNum 7), (''valid'', JBool False),
            (''reason'', JStr ''Invalid email format'')],
           [(''email'', JStr ''bad''), (''valid'', JBool False), (''reason'', JStr ''regex''),
            (''validators'', JUndefined)]],
          [(''a@good.com'', ''a@good.com''), (''bad'', ''bad'')])"
    using h t1 by (simp add: run_defs ex_defs)
  have b: "snd (validate_row ex_validate ''email'' None ?str []) = [(''bad'', ''bad'')]"
    using g t2 by (simp add: run_defs ex_defs)
  show ?thesis using h' g a b by simp
qed

text \<open>
  C6 as stated fails for a cell that holds only white space: its address, the trimmed
  string, is empty, yet the validator is called with it and the row gets the validator's
  verdict, which is \<^verbatim>\<open>valid: true\<close> when the validator accepts every address.
\<close>

theorem whitespace_address_validated_counterexample:
  "extract_email (plain [(''email'', JStr ''   '')]) ''email'' = JStr ''   ''
   \<and> trim ''   '' = []
   \<and> validateEmails ex_validate [plain [(''email'', JStr ''   '')]] ''email'' None []
       = ([[(''email'', JStr []), (''valid'', JBool False), (''reason'', JStr ''regex''),
            (''validators'', JUndefined)]],
          [([], [])])
   \<and> validateEmails (logged ex_accept) [plain [(''email'', JStr ''   '')]] ''email'' None []
       = ([[(''email'', JStr []), (''valid'', JBool True), (''reason'', JUndefined),
            (''validators'', JUndefined)]],
          [([], [])])"
  by (simp add: run_defs ex_defs ex_accept_def)

text \<open>
  C7 (as amended). The extracted address is the value read as \<^verbatim>\<open>row[emailColumn]\<close> when
  that value is truthy, and the value of the row's first field whenever it is falsy. The
  read yields the column of that name when the row has one; otherwise a non-enumerable
  or inherited property of that name (for a plain object \<^verbatim>\<open>constructor\<close>,
  \<^verbatim>\<open>toString\<close>, \<^verbatim>\<open>__proto__\<close> and the other members of \<^verbatim>\<open>Object.prototype\<close>) when there
  is one; otherwise \<^verbatim>\<open>undefined\<close>, so that the first field is used. There is one result
  per row, in input order, whose \<^verbatim>\<open>email\<close> is the trimmed address when the extracted
  value is a non-empty string; and the addresses submitted to the validator are, in input
  order, the trimmed non-empty string addresses of the rows.
\<close>

theorem extract_email_fallback:
  "(truthy (row_prop row c) \<longrightarrow> extract_email row c = row_prop row c)
   \<and> (\<not> truthy (row_prop row c) \<longrightarrow> extract_email row c = first_field row)
   \<and> (map_of (columns row) c = Some x \<longrightarrow> row_prop row c = x)
   \<and> (map_of (columns row) c = None \<and> map_of (hidden row) c = Some y \<longrightarrow> row_prop row c = y)
   \<and> (map_of (columns row) c = None \<and> map_of (hidden row) c = None \<longrightarrow>
         row_prop row c = JUndefined \<and> extract_email row c = first_field row)
   \<and> (columns row = (k, z) # rest \<longrightarrow> first_field row = z)
   \<and> length (fst (validateEmails validate rows c sd n)) = length rows
   \<and> (\<forall>i<length rows.
         get_prop (fst (validateEmails validate rows c sd n) ! i) ''email'' =
           (if truthy (extract_email (rows ! i) c) \<and> typeof (extract_email (rows ! i) c) = ''string''
            then JStr (trim (str_val (extract_email (rows ! i) c)))
            else js_or (extract_email (rows ! i) c) (JStr [])))
   \<and> snd (validateEmails (logged verdict) rows c sd log) =
       log @ map (\<lambda>row. (trim (str_val (extract_email row c)),
                          sender_or sd (trim (str_val (extract_email row c)))))
               (filter (\<lambda>row. truthy (extract_email row c) \<and> typeof (extract_email row c) = ''string'')
                  rows)"
proof -
  have nth: "get_prop (fst (validateEmails validate rows c sd n) ! i) ''email'' =
           (if truthy (extract_email (rows ! i) c) \<and> typeof (extract_email (rows ! i) c) = ''string''
            then JStr (trim (str_val (extract_email (rows ! i) c)))
            else js_or (extract_email (rows ! i) c) (JStr []))"
    if i: "i < length rows" for i
  proof -
    from validateEmails_nth[OF i, of validate c sd n] obtain m where
      "fst (validateEmails validate rows c sd n) ! i = fst (validate_row validate c sd (rows ! i) m)" ..
    then show ?thesis by (simp only: validate_row_email)
  qed
  have ff: "columns row = (k, z) # rest \<longrightarrow> first_field row = z"
    by (simp add: first_field_def row_prop_def read_prop_def)
  have own: "map_of (columns row) c = Some x \<longrightarrow> row_prop row c = x"
    by (simp add: row_prop_def read_prop_def)
  have hid: "map_of (columns row) c = None \<and> map_of (hidden row) c = Some y \<longrightarrow> row_prop row c = y"
    by (simp add: row_prop_def read_prop_def)
  have none: "map_of (columns row) c = None \<and> map_of (hidden row) c = None \<longrightarrow>
         row_prop row c = JUndefined \<and> extract_email row c = first_field row"
    by (simp add: row_prop_def read_prop_def extract_email_def js_or_def)
  have ext: "(truthy (row_prop row c) \<longrightarrow> extract_email row c = row_prop row c)
           \<and> (\<not> truthy (row_prop row c) \<longrightarrow> extract_email row c = first_field row)"
    by (simp add: extract_email_def js_or_def)
  have len: "length (fst (validateEmails validate rows c sd n)) = length rows"
    by (rule validateEmails_length)
  have lg: "snd (validateEmails (logged verdict) rows c sd log) =
       log @ map (\<lambda>row. (trim (str_val (extract_email row c)),
                          sender_or sd (trim (str_val (extract_email row c)))))
               (filter (\<lambda>row. truthy (extract_email row c) \<and> typeof (extract_email row c) = ''string'')
                  rows)"
    by (rule validateEmails_logged)
  show ?thesis
    using nth ff own hid none ext len lg by blast
qed

theorem extract_email_fallback_witness:
  "truthy (row_prop (plain [(''name'', JStr ''Bob''), (''email'', JStr '' a@good.com '')]) ''email'')
   \<and> extract_email (plain [(''name'', JStr ''Bob''), (''email'', JStr '' a@good.com '')]) ''email''
       = JStr '' a@good.com ''
   \<and> map_of (columns (plain [(''mail'', JStr ''bad''), (''id'', JNum 0)])) ''email'' = None
   \<and> map_of (hidden (plain [(''mail'', JStr ''bad''), (''id'', JNum 0)])) ''email'' = None
   \<and> extract_email (plain [(''mail'', JStr ''bad''), (''id'', JNum 0)]) ''email'' = JStr ''bad''
   \<and> map_of (hidden (sheet_row 1 [(''mail'', JStr ''bad'')])) ''__rowNum__'' = Some (JNum 1)
   \<and> extract_email (sheet_row 1 [(''mail'', JStr ''bad'')]) ''__rowNum__'' = JNum 1
   \<and> snd (validateEmails ex_validate
        [plain [(''name'', JStr ''Bob''), (''email'', JStr '' a@good.com '')],
         plain [(''id'', JNum 7)],
         plain [(''mail'', JStr ''bad''), (''id'', JNum 0)]] ''email'' None [])
       = [(''a@good.com'', ''a@good.com''), (''bad'', ''bad'')]"
proof -
  let ?r1 = "plain [(''name'', JStr ''Bob''), (''email'', JStr '' a@good.com '')]"
  let ?r3 = "plain [(''mail'', JStr ''bad''), (''id'', JNum 0)]"
  let ?r4 = "sheet_row 1 [(''mail'', JStr ''bad'')]"
  let ?rows = "[?r1, plain [(''id'', JNum 7)], ?r3]"
  have h1: "truthy (row_prop ?r1 ''email'')"
    by (simp add: run_defs)
  have h1': "map_of (columns ?r1) ''email'' = Some (JStr '' a@good.com '')"
    by (simp add: plain_def)
  have h3: "map_of (columns ?r3) ''email'' = None \<and> map_of (hidden ?r3) ''email'' = None"
    by (simp add: plain_def object_prototype_def)
  have h3': "columns ?r3 = (''mail'', JStr ''bad'') # [(''id'', JNum 0)]"
    by (simp add: plain_def)
  have h4: "map_of (columns ?r4) ''__rowNum__'' = None
            \<and> map_of (hidden ?r4) ''__rowNum__'' = Some (JNum 1)"
    by (simp add: sheet_row_def)
  note t1 = extract_email_fallback[where row = ?r1 and c = "''email''"
      and x = "JStr '' a@good.com ''" and y = JNull and k = "''name''" and z = "JStr ''Bob''"
      and rest = "[(''email'', JStr '' a@good.com '')]" and validate = ex_validate
      and rows = ?rows and sd = None and n = "[]" and verdict = ex_verdict and log = "[]"]
  note t3 = extract_email_fallback[where row = ?r3 and c = "''email''"
      and x = JNull and y = JNull and k = "''mail''" and z = "JStr ''bad''"
      and rest = "[(''id'', JNum 0)]" and validate = ex_validate
      and rows = ?rows and sd = None and n = "[]" and verdict = ex_verdict and log = "[]"]
  note t4 = extract_email_fallback[where row = ?r4 and c = "''__rowNum__''"
      and x = JNull and y = "JNum 1" and k = "''mail''" and z = "JStr ''bad''"
      and rest = "[]" and validate = ex_validate
      and rows = ?rows and sd = None and n = "[]" and verdict = ex_verdict and log = "[]"]
  have a: "extract_email ?r1 ''email'' = JStr '' a@good.com ''"
    using h1 h1' t1 by simp
  have b: "extract_email ?r3 ''email'' = JStr ''bad''"
    using h3 h3' t3 by simp
  have d: "extract_email ?r4 ''__rowNum__'' = JNum 1"
    using h4 t4 by simp
  have e: "snd (validateEmails ex_validate ?rows ''email'' None [])
       = [(''a@good.com'', ''a@good.com''), (''bad'', ''bad'')]"
    using t1 by (simp add: run_defs ex_defs)
  show ?thesis using h1 h3 h4 a b d e by simp
qed

text \<open>
  C7 as stated fails in both directions. A row whose email column is present and holds
  the empty string has its first field extracted and submitted to the validator. A row
  without a column named \<^verbatim>\<open>constructor\<close>, asked for that column, does not have its first
  field extracted: the inherited function is, and nothing is submitted to the validator.
\<close>

theorem extract_email_present_column_counterexample:
  "map_of (columns (plain [(''name'', JStr ''bob@x.org''), (''email'', JStr [])])) ''email''
       = Some (JStr [])
   \<and> extract_email (plain [(''name'', JStr ''bob@x.org''), (''email'', JStr [])]) ''email''
       = JStr ''bob@x.org''
   \<and> first_field (plain [(''name'', JStr ''bob@x.org''), (''email'', JStr [])]) = JStr ''bob@x.org''
   \<and> snd (validateEmails ex_validate [plain [(''name'', JStr ''bob@x.org''), (''email'', JStr [])]]
          ''email'' None [])
       = [(''bob@x.org'', ''bob@x.org'')]
   \<and> map_of (columns (plain [(''mail'', JStr ''bob@x.org'')])) ''constructor'' = None
   \<and> first_field (plain [(''mail'', JStr ''bob@x.org'')]) = JStr ''bob@x.org''
   \<and> extract_email (plain [(''mail'', JStr ''bob@x.org'')]) ''constructor'' = JFunction
   \<and> validateEmails ex_validate [plain [(''mail'', JStr ''bob@x.org'')]] ''constructor'' None []
       = ([[(''mail'', JStr ''bob@x.org''), (''email'', JFunction), (''valid'', JBool False),
            (''reason'', JStr ''Invalid email format'')]], [])"
  by (simp add: run_defs ex_defs)

text \<open>
  C9. Every column of a row other than \<^verbatim>\<open>email\<close>, \<^verbatim>\<open>valid\<close>, \<^verbatim>\<open>reason\<close> and
  \<^verbatim>\<open>validators\<close> is present in the row's result exactly when it is present in the row,
  with the same value, in \<^verbatim>\<open>validateEmails\<close> and, for a callback that returns
  normally, in \<^verbatim>\<open>validateEmailsWithSSE\<close>.
\<close>

theorem passthrough_columns:
  assumes "k \<notin> {''email'', ''valid'', ''reason'', ''validators''}"
  shows "map_of (fst (validate_row validate c sd row n)) k = map_of (columns row) k
       \<and> (\<forall>i<length rows.
             map_of (fst (validateEmails validate rows c sd n) ! i) k = map_of (columns (rows ! i)) k)
       \<and> ((\<forall>e v r s. fst (call_callback cb e v r s) = None) \<longrightarrow>
            (\<exists>results. fst (validateEmailsWithSSE validate rows c sd cb s n) = Inr results
               \<and> (\<forall>i<length rows. map_of (results ! i) k = map_of (columns (rows ! i)) k)))"
proof -
  have batch: "map_of (fst (validateEmails validate rows c sd n) ! i) k = map_of (columns (rows ! i)) k"
    if i: "i < length rows" for i
  proof -
    from validateEmails_nth[OF i, of validate c sd n] obtain m where
      "fst (validateEmails validate rows c sd n) ! i = fst (validate_row validate c sd (rows ! i) m)" ..
    then show ?thesis by (simp add: validate_row_passthrough[OF assms])
  qed
  show ?thesis
    using batch by (simp add: validate_row_passthrough[OF assms] validateEmailsWithSSE_no_throw)
qed

theorem passthrough_columns_witness:
  "''name'' \<notin> {''email'', ''valid'', ''reason'', ''validators''}
   \<and> map_of (fst (validateEmails ex_validate
                [plain [(''name'', JStr ''Bob''), (''email'', JStr ''a@good.com'')]] ''email'' None []) ! 0)
         ''name'' = Some (JStr ''Bob'')
   \<and> (\<exists>results. fst (validateEmailsWithSSE ex_validate
                [plain [(''name'', JStr ''Bob''), (''email'', JStr ''a@good.com'')]] ''email'' None
                (Some ex_count) 0 []) = Inr results
         \<and> map_of (results ! 0) ''name'' = Some (JStr ''Bob''))"
proof -
  have h: "''name'' \<notin> {''email'', ''valid'', ''reason'', ''validators''}" by simp
  have cb: "\<forall>e v r s. fst (call_callback (Some ex_count) e v r s) = None"
    by (simp add: call_callback_def ex_count_def)
  show ?thesis
    using h cb passthrough_columns[where k = "''name''" and validate = ex_validate
            and c = "''email''" and sd = None and row = "plain []" and n = "[]"
            and rows = "[plain [(''name'', JStr ''Bob''), (''email'', JStr ''a@good.com'')]]"
            and cb = "Some ex_count" and s = "0::nat", OF h]
    by (auto simp: plain_def)
qed

section \<open>The registry, the stream handler and the upload handler\<close>

lemma sendSSEMessage_no_throw: "fst (sendSSEMessage sid ev st) = None"
  by (simp add: sendSSEMessage_def try_catch_def split: option.splits prod.splits)

lemma sendSSEMessage_absent:
  "map_of (sseConnections st) sid = None \<Longrightarrow> sendSSEMessage sid ev st = (None, st)"
  by (simp add: sendSSEMessage_def)

lemma send_body_healthy:
  "healthy (responses st a) \<Longrightarrow> send_body a ev st = (None, deliver a [ev] st)"
  by (auto simp: send_body_def chan_write_def chan_flush_def healthy_def deliver_def
        split: flush_kind.splits)

lemma send_body_unhealthy:
  "\<not> healthy (responses st a) \<Longrightarrow> fst (send_body a ev st) \<noteq> None"
  by (auto simp: send_body_def chan_write_def chan_flush_def healthy_def
        split: flush_kind.splits option.splits)

lemma sendSSEMessage_healthy:
  "map_of (sseConnections st) sid = Some a \<Longrightarrow> healthy (responses st a) \<Longrightarrow>
     sendSSEMessage sid ev st = (None, deliver a [ev] st)"
  by (simp add: sendSSEMessage_def try_catch_def send_body_healthy)

lemma send_body_registry: "sseConnections (snd (send_body a ev st)) = sseConnections st"
  by (auto simp: send_body_def split: option.splits prod.splits)

lemma sendSSEMessage_unhealthy:
  assumes "map_of (sseConnections st) sid = Some a" and "\<not> healthy (responses st a)"
  shows "map_of (sseConnections (snd (sendSSEMessage sid ev st))) sid = None"
proof -
  obtain t st1 where sb: "send_body a ev st = (Some t, st1)"
    using send_body_unhealthy[OF assms(2), of ev] by (cases "send_body a ev st") auto
  have "sseConnections st1 = sseConnections st"
    using send_body_registry[of a ev st] sb by simp
  then show ?thesis
    using assms(1) sb by (simp add: sendSSEMessage_def try_catch_def delete_conv')
qed

lemma publish_absent_fold:
  "map_of (sseConnections st) sid = None \<Longrightarrow>
     foldl (\<lambda>s e. snd (sendSSEMessage sid e s)) st evs = st"
  by (induction evs) (simp_all add: sendSSEMessage_absent)

text \<open>
  C4. \<^verbatim>\<open>sendSSEMessage\<close> never lets an exception reach its caller. When the session has
  no entry in \<^verbatim>\<open>sseConnections\<close> it changes nothing. When the entry exists and the
  delivery throws (in \<^verbatim>\<open>write\<close> or in \<^verbatim>\<open>flush\<close>), the entry is deleted, so that every
  later \<^verbatim>\<open>sendSSEMessage\<close> for the session changes nothing.
\<close>

theorem sendSSEMessage_best_effort:
  "fst (sendSSEMessage sessionId data st) = None
   \<and> (map_of (sseConnections st) sessionId = None \<longrightarrow> sendSSEMessage sessionId data st = (None, st))
   \<and> (map_of (sseConnections st) sessionId = Some connection \<and> \<not> healthy (responses st connection) \<longrightarrow>
        map_of (sseConnections (snd (sendSSEMessage sessionId data st))) sessionId = None
        \<and> (\<forall>data'. sendSSEMessage sessionId data' (snd (sendSSEMessage sessionId data st))
                     = (None, snd (sendSSEMessage sessionId data st)))
        \<and> (\<forall>evs. foldl (\<lambda>s e. snd (sendSSEMessage sessionId e s))
                     (snd (sendSSEMessage sessionId data st)) evs
                   = snd (sendSSEMessage sessionId data st)))"
  using sendSSEMessage_unhealthy[of st sessionId connection data]
  by (simp add: sendSSEMessage_no_throw sendSSEMessage_absent publish_absent_fold)

theorem sendSSEMessage_best_effort_witness:
  "map_of (sseConnections ex_broken) ''s1'' = Some 0
   \<and> write_throws (responses ex_broken 0) = Some (ErrorObj ''EPIPE'')
   \<and> map_of (sseConnections (snd (sendSSEMessage ''s1'' (Start 3) ex_broken))) ''s1'' = None
   \<and> sendSSEMessage ''s1'' (Error ''late'') (snd (sendSSEMessage ''s1'' (Start 3) ex_broken))
       = (None, snd (sendSSEMessage ''s1'' (Start 3) ex_broken))
   \<and> sendSSEMessage ''nobody'' (Start 3) ex_broken = (None, ex_broken)"
proof -
  have h1: "map_of (sseConnections ex_broken) ''s1'' = Some 0"
    by (simp add: ex_broken_def)
  have h2: "write_throws (responses ex_broken 0) = Some (ErrorObj ''EPIPE'')"
    by (simp add: ex_broken_def fresh_channel_def)
  have h3: "\<not> healthy (responses ex_broken 0)"
    using h2 by (simp add: healthy_def)
  have h4: "map_of (sseConnections ex_broken) ''nobody'' = None"
    by (simp add: ex_broken_def)
  show ?thesis
    using h1 h2 h3 h4
      sendSSEMessage_best_effort[of "''s1''" "Start 3" ex_broken 0]
      sendSSEMessage_best_effort[of "''nobody''" "Start 3" ex_broken 0]
    by simp
qed

lemma stream_handler_registers:
  assumes "sessionId \<noteq> []" and "write_throws res = None"
  shows "stream_handler (Some sessionId) res st =
           (Inr (Streaming (next_ref st)),
            st\<lparr>sseConnections := AList.update sessionId (next_ref st) (sseConnections st),
               responses := (responses st)(next_ref st := res\<lparr>written := written res @ [Connected sessionId]\<rparr>),
               next_ref := Suc (next_ref st)\<rparr>)"
  using assms by (simp add: stream_handler_def chan_write_def Let_def)

lemma stream_handler_streaming:
  assumes "stream_handler session res st = (Inr (Streaming a), st')"
  shows "\<exists>sessionId. session = Some sessionId \<and> sessionId \<noteq> [] \<and> write_throws res = None
           \<and> a = next_ref st"
  using assms
  by (auto simp: stream_handler_def chan_write_def Let_def split: option.splits if_splits)

lemma sendSSEMessage_appends:
  "\<exists>xs. written (responses (snd (sendSSEMessage sid ev st)) b) = written (responses st b) @ xs"
  by (auto simp: sendSSEMessage_def try_catch_def send_body_def chan_write_def chan_flush_def
        split: option.splits prod.splits flush_kind.splits)

lemma publishes_append:
  "\<exists>xs. written (responses (foldl (\<lambda>s p. snd (sendSSEMessage (fst p) (snd p) s)) st pubs) b)
          = written (responses st b) @ xs"
proof (induction pubs arbitrary: st)
  case Nil
  show ?case by simp
next
  case (Cons p pubs)
  obtain xs where 1: "written (responses (snd (sendSSEMessage (fst p) (snd p) st)) b)
                        = written (responses st b) @ xs"
    using sendSSEMessage_appends by blast
  obtain ys where 2: "written (responses (foldl (\<lambda>s p. snd (sendSSEMessage (fst p) (snd p) s))
                         (snd (sendSSEMessage (fst p) (snd p) st)) pubs) b)
                        = written (responses (snd (sendSSEMessage (fst p) (snd p) st)) b) @ ys"
    using Cons.IH by blast
  show ?case using 1 2 by simp
qed

text \<open>
  C10. When the stream handler accepts a subscriber, on a response object nothing has been
  written to, the response is stored under a new reference, registered for the session
  id of the request, and holds exactly the \<^verbatim>\<open>connected\<close> event with that session id when
  the handler returns; whatever is published afterwards, for any session, the
  \<^verbatim>\<open>connected\<close> event stays the first event of that response.
\<close>

theorem connected_is_first_event:
  assumes "stream_handler session res st = (Inr (Streaming a), st')"
    and "written res = []"
  shows "\<exists>sessionId. session = Some sessionId \<and> sessionId \<noteq> []
           \<and> a = next_ref st
           \<and> map_of (sseConnections st') sessionId = Some a
           \<and> written (responses st' a) = [Connected sessionId]
           \<and> (\<forall>pubs. \<exists>later.
                 written (responses (foldl (\<lambda>s p. snd (sendSSEMessage (fst p) (snd p) s)) st' pubs) a)
                   = Connected sessionId # later)"
proof -
  from stream_handler_streaming[OF assms(1)] obtain sessionId where
    s: "session = Some sessionId" "sessionId \<noteq> []" "write_throws res = None" "a = next_ref st"
    by blast
  have st': "st' = st\<lparr>sseConnections := AList.update sessionId (next_ref st) (sseConnections st),
               responses := (responses st)(next_ref st := res\<lparr>written := written res @ [Connected sessionId]\<rparr>),
               next_ref := Suc (next_ref st)\<rparr>"
    using assms(1) s stream_handler_registers[OF s(2) s(3), of st] by simp
  have w: "written (responses st' a) = [Connected sessionId]"
    using assms(2) s(4) by (simp add: st')
  have reg: "map_of (sseConnections st') sessionId = Some a"
    using s(4) by (simp add: st' update_conv')
  have later: "\<exists>later. written (responses (foldl (\<lambda>s p. snd (sendSSEMessage (fst p) (snd p) s)) st' pubs) a)
                   = Connected sessionId # later" for pubs
    using publishes_append[of st' pubs a] w by simp
  show ?thesis using s w reg later by blast
qed

theorem connected_is_first_event_witness:
  "stream_handler (Some ''s1'') fresh_channel empty_server
     = (Inr (Streaming 0), snd (stream_handler (Some ''s1'') fresh_channel empty_server))
   \<and> written fresh_channel = []
   \<and> written (responses (snd (stream_handler (Some ''s1'') fresh_channel empty_server)) 0)
       = [Connected ''s1'']
   \<and> written (responses
        (snd (sendSSEMessage ''s1'' (Start 2) (snd (stream_handler (Some ''s1'') fresh_channel empty_server))))
        0) = [Connected ''s1'', Start 2]"
proof -
  have h1: "stream_handler (Some ''s1'') fresh_channel empty_server
     = (Inr (Streaming 0), snd (stream_handler (Some ''s1'') fresh_channel empty_server))"
    by (simp add: server_defs)
  have h2: "written fresh_channel = []"
    by (simp add: fresh_channel_def)
  have "written (responses
        (snd (sendSSEMessage ''s1'' (Start 2) (snd (stream_handler (Some ''s1'') fresh_channel empty_server))))
        0) = [Connected ''s1'', Start 2]"
    by (simp add: server_defs)
  then show ?thesis
    using h1 h2 connected_is_first_event[OF h1 h2] by auto
qed

text \<open>
  C3 (as amended). A second registration for a session id that is already registered
  succeeds like the first one: it returns a stream under a new reference and the entry of
  \<^verbatim>\<open>sseConnections\<close> for that id now refers to the new response. The first subscriber's
  response object is left as it was (not ended), and events published for the session
  no longer reach it. The registered reference is one the server has handed out
  (\<open>first < next_ref st\<close>).
\<close>

theorem second_registration_replaces:
  assumes "sessionId \<noteq> []"
    and "write_throws res = None"
    and "map_of (sseConnections st) sessionId = Some first"
    and "first < next_ref st"
  shows "\<exists>st'. stream_handler (Some sessionId) res st = (Inr (Streaming (next_ref st)), st')
           \<and> map_of (sseConnections st') sessionId = Some (next_ref st)
           \<and> next_ref st \<noteq> first
           \<and> responses st' first = responses st first
           \<and> (\<forall>data. responses (snd (sendSSEMessage sessionId data st')) first = responses st first)"
proof -
  define st' where "st' = st\<lparr>sseConnections := AList.update sessionId (next_ref st) (sseConnections st),
               responses := (responses st)(next_ref st := res\<lparr>written := written res @ [Connected sessionId]\<rparr>),
               next_ref := Suc (next_ref st)\<rparr>"
  have run: "stream_handler (Some sessionId) res st = (Inr (Streaming (next_ref st)), st')"
    unfolding st'_def by (rule stream_handler_registers[OF assms(1,2)])
  have reg: "map_of (sseConnections st') sessionId = Some (next_ref st)"
    by (simp add: st'_def update_conv')
  have ne: "next_ref st \<noteq> first" using assms(4) by simp
  have same: "responses st' first = responses st first"
    using ne by (simp add: st'_def)
  have pub: "responses (snd (sendSSEMessage sessionId data st')) first = responses st first" for data
    using reg ne same
    by (auto simp: sendSSEMessage_def try_catch_def send_body_def split: option.splits prod.splits)
  show ?thesis using run reg ne same pub by blast
qed

theorem second_registration_replaces_witness:
  "map_of (sseConnections ex_registered) ''s1'' = Some 0
   \<and> 0 < next_ref ex_registered
   \<and> write_throws fresh_channel = None
   \<and> fst (stream_handler (Some ''s1'') fresh_channel ex_registered) = Inr (Streaming 1)
   \<and> map_of (sseConnections (snd (stream_handler (Some ''s1'') fresh_channel ex_registered))) ''s1''
       = Some 1"
proof -
  have h1: "''s1'' \<noteq> []" by simp
  have h2: "write_throws fresh_channel = None" by (simp add: fresh_channel_def)
  have h3: "map_of (sseConnections ex_registered) ''s1'' = Some 0"
    by (simp add: ex_registered_def server_defs)
  have h4: "0 < next_ref ex_registered"
    by (simp add: ex_registered_def server_defs)
  have n: "next_ref ex_registered = 1"
    by (simp add: ex_registered_def server_defs)
  show ?thesis
    using h2 h3 h4 n second_registration_replaces[OF h1 h2 h3 h4] by auto
qed

text \<open>
  C3 as stated fails: registering \<^verbatim>\<open>s1\<close> twice, with nothing in between, gives a
  stream both times, and the entry for \<^verbatim>\<open>s1\<close> refers to the second response while the
  first is still open.
\<close>

theorem duplicate_registration_counterexample:
  "fst (stream_handler (Some ''s1'') fresh_channel empty_server) = Inr (Streaming 0)
   \<and> map_of (sseConnections ex_registered) ''s1'' = Some 0
   \<and> fst (stream_handler (Some ''s1'') fresh_channel ex_registered) = Inr (Streaming 1)
   \<and> map_of (sseConnections (snd (stream_handler (Some ''s1'') fresh_channel ex_registered))) ''s1''
       = Some 1
   \<and> ended (responses (snd (stream_handler (Some ''s1'') fresh_channel ex_registered)) 0) = False"
  by (simp add: ex_registered_def server_defs)

lemma deliver_simps:
  "sseConnections (deliver a evs st) = sseConnections st"
  "next_ref (deliver a evs st) = next_ref st"
  "written (responses (deliver a evs st) a) = written (responses st a) @ evs"
  "ended (responses (deliver a evs st) a) = ended (responses st a)"
  "healthy (responses (deliver a evs st) a) = healthy (responses st a)"
  "deliver a ys (deliver a xs st) = deliver a (xs @ ys) st"
  "deliver a [] st = st"
  by (simp_all add: deliver_def healthy_def)

lemma publish_fold_healthy:
  "map_of (sseConnections st) sid = Some a \<Longrightarrow> healthy (responses st a) \<Longrightarrow>
     foldl (\<lambda>s e. snd (sendSSEMessage sid e s)) st evs = deliver a evs st"
proof (induction evs arbitrary: st)
  case Nil
  show ?case by (simp add: deliver_simps)
next
  case (Cons e evs)
  have "foldl (\<lambda>s e. snd (sendSSEMessage sid e s)) (deliver a [e] st) evs
          = deliver a evs (deliver a [e] st)"
    using Cons.prems by (intro Cons.IH) (simp_all add: deliver_simps)
  then show ?case
    using Cons.prems by (simp add: sendSSEMessage_healthy deliver_simps)
qed

lemma close_session_after:
  assumes "map_of (sseConnections st) sid = Some a"
  shows "written (responses (close_session sid st) a) = written (responses st a)"
    and "ended (responses (close_session sid st) a)"
    and "map_of (sseConnections (close_session sid st)) sid = None"
  using assms by (simp_all add: close_session_def chan_end_def delete_conv')

lemma post_catch_state:
  assumes "sid \<noteq> []" and "map_of (sseConnections st) sid = Some a" and "healthy (responses st a)"
  shows "fst (snd (post_catch fs file (Some sid) err st n))
           = close_session sid (deliver a [Error (error_message err)] st)"
  using assms
  by (simp add: post_catch_def str_or_null_def Let_def sendSSEMessage_healthy
        split: option.splits)

lemma run_with_session:
  assumes rd: "readEmailsFromXLSX fs ip = Inr emails" and ne: "emails \<noteq> []"
    and reg: "map_of (sseConnections st) sid = Some a" and h: "healthy (responses st a)"
  shows "processXLSXFileWithSSE fs v ip op c sd sid (Some (sendSSEMessage sid)) st n =
           (case writeResultsToXLSX fs (fst (validateEmails v emails c sd n)) op of
              Some error \<Rightarrow> Inl error
            | None \<Rightarrow> Inr \<lparr>total = length (fst (validateEmails v emails c sd n)),
                            valid = count_valid (fst (validateEmails v emails c sd n)),
                            invalid = count_invalid (fst (validateEmails v emails c sd n))\<rparr>,
            deliver a (Start (length emails) # map email_event (fst (validateEmails v emails c sd n))) st,
            snd (validateEmails v emails c sd n))"
proof -
  have nt: "\<forall>ev s. fst (call_sendSSE (Some (sendSSEMessage sid)) ev s) = None"
    by (simp add: call_sendSSE_def sendSSEMessage_no_throw)
  have s1: "snd (call_sendSSE (Some (sendSSEMessage sid)) (Start (length emails)) st)
              = deliver a [Start (length emails)] st"
    using reg h by (simp add: call_sendSSE_def sendSSEMessage_healthy)
  have fold: "foldl (\<lambda>s r. snd (call_sendSSE (Some (sendSSEMessage sid)) (email_event r) s))
                (deliver a [Start (length emails)] st) results
              = deliver a (Start (length emails) # map email_event results) st" for results
  proof -
    have "foldl (\<lambda>s r. snd (call_sendSSE (Some (sendSSEMessage sid)) (email_event r) s))
                (deliver a [Start (length emails)] st) results
          = foldl (\<lambda>s e. snd (sendSSEMessage sid e s)) (deliver a [Start (length emails)] st)
              (map email_event results)"
      by (simp add: foldl_map call_sendSSE_def)
    also have "\<dots> = deliver a (map email_event results) (deliver a [Start (length emails)] st)"
      using reg h by (intro publish_fold_healthy) (simp_all add: deliver_simps)
    finally show ?thesis by (simp add: deliver_simps)
  qed
  show ?thesis
    by (simp add: processXLSXFileWithSSE_no_throw[OF nt rd ne] Let_def s1 fold)
qed

text \<open>
  C8. A request with a session id, whose subscriber is registered on a response that
  delivers (\<open>healthy\<close>), over a workbook with \<open>n > 0\<close> rows: when the handler is done,
  the response has received, after what it held before, \<^verbatim>\<open>start\<close> with total \<open>n\<close>, then
  the \<^verbatim>\<open>email\<close> event of each row's result in row order, then one terminal event:
  \<^verbatim>\<open>complete\<close> with the stats when the result workbook was written and the upload
  removed, \<^verbatim>\<open>error\<close> with the message otherwise. The response is ended, the session
  has no entry any more, and every later publish for the session changes nothing.
  Whoever the \<^verbatim>\<open>sendSSE\<close> function is, as long as it returns normally,
  \<^verbatim>\<open>processXLSXFileWithSSE\<close> calls it with exactly \<^verbatim>\<open>start\<close> and then the \<^verbatim>\<open>email\<close>
  events in row order. The handler is taken as one step: no subscriber connects or
  disconnects while it runs.
\<close>

theorem session_event_sequence:
  assumes "bodySessionId = Some sid" and "sid \<noteq> []"
    and "readEmailsFromXLSX fs (path f) = Inr emails" and "emails \<noteq> []"
    and "map_of (sseConnections st) sid = Some a" and "healthy (responses st a)"
  shows "let outputFilename = ''validated-'' @ show_nat now @ ''-'' @ originalname f;
             results = fst (validateEmails validate emails (str_or bodyEmailColumn ''email'')
                              bodySenderEmail n);
             terminal =
               (case writeResultsToXLSX fs results (path_join outputDir outputFilename) of
                  Some error \<Rightarrow> Error (error_message error)
                | None \<Rightarrow>
                    (case unlinkSync fs (path f) of
                       Some error \<Rightarrow> Error (error_message error)
                     | None \<Rightarrow>
                         Complete \<lparr>total = length emails, valid = count_valid results,
                                   invalid = count_invalid results\<rparr>
                           (''/api/download/'' @ outputFilename) outputFilename));
             st' = fst (snd (post_handler fs validate outputDir now (Some f) bodyEmailColumn
                               bodySenderEmail bodySessionId st n))
         in length results = length emails
          \<and> written (responses st' a) =
              written (responses st a) @ [Start (length emails)] @ map email_event results @ [terminal]
          \<and> ended (responses st' a)
          \<and> map_of (sseConnections st') sid = None
          \<and> (\<forall>data. sendSSEMessage sid data st' = (None, st'))
          \<and> ((\<forall>ev s. fst (call_sendSSE sendSSE ev s) = None) \<longrightarrow>
               fst (snd (processXLSXFileWithSSE fs validate (path f)
                           (path_join outputDir outputFilename) (str_or bodyEmailColumn ''email'')
                           bodySenderEmail sid sendSSE s n))
                 = foldl (\<lambda>s ev. snd (call_sendSSE sendSSE ev s)) s
                     ([Start (length emails)] @ map email_event results))"
proof -
  define outputFilename where "outputFilename = ''validated-'' @ show_nat now @ ''-'' @ originalname f"
  define results where "results = fst (validateEmails validate emails (str_or bodyEmailColumn ''email'')
                              bodySenderEmail n)"
  define terminal where "terminal =
               (case writeResultsToXLSX fs results (path_join outputDir outputFilename) of
                  Some error \<Rightarrow> Error (error_message error)
                | None \<Rightarrow>
                    (case unlinkSync fs (path f) of
                       Some error \<Rightarrow> Error (error_message error)
                     | None \<Rightarrow>
                         Complete \<lparr>total = length emails, valid = count_valid results,
                                   invalid = count_invalid results\<rparr>
                           (''/api/download/'' @ outputFilename) outputFilename))"
  define st' where "st' = fst (snd (post_handler fs validate outputDir now (Some f) bodyEmailColumn
                               bodySenderEmail bodySessionId st n))"
  define st2 where "st2 = deliver a (Start (length emails) # map email_event results) st"
  have len: "length results = length emails"
    by (simp add: results_def validateEmails_length)
  have reg2: "map_of (sseConnections st2) sid = Some a" and h2: "healthy (responses st2 a)"
    using assms(5,6) by (simp_all add: st2_def deliver_simps)
  have run: "processXLSXFileWithSSE fs validate (path f) op
               (str_or bodyEmailColumn ''email'') bodySenderEmail sid (Some (sendSSEMessage sid)) st n
             = (case writeResultsToXLSX fs results op of
                  Some error \<Rightarrow> Inl error
                | None \<Rightarrow> Inr \<lparr>total = length results, valid = count_valid results,
                                invalid = count_invalid results\<rparr>,
                st2,
                snd (validateEmails validate emails (str_or bodyEmailColumn ''email'') bodySenderEmail n))"
    for op
    unfolding results_def st2_def by (rule run_with_session[OF assms(3,4,5,6)])
  have final: "st' = close_session sid (deliver a [terminal] st2)"
  proof (cases "writeResultsToXLSX fs results (path_join outputDir outputFilename)")
    case (Some error)
    then show ?thesis
      using assms(1,2)
      by (simp add: st'_def post_handler_def Let_def str_or_null_def run
            outputFilename_def terminal_def post_catch_state[OF assms(2) reg2 h2])
  next
    case None
    note w = None
    show ?thesis
    proof (cases "unlinkSync fs (path f)")
      case (Some error)
      then show ?thesis
        using assms(1,2) w
        by (simp add: st'_def post_handler_def Let_def str_or_null_def run
              outputFilename_def terminal_def post_catch_state[OF assms(2) reg2 h2])
    next
      case None
      then show ?thesis
        using assms(1,2) w
        by (simp add: st'_def post_handler_def Let_def str_or_null_def run len
              outputFilename_def terminal_def sendSSEMessage_healthy[OF reg2 h2])
    qed
  qed
  have reg3: "map_of (sseConnections (deliver a [terminal] st2)) sid = Some a"
    using reg2 by (simp add: deliver_simps)
  have w0: "written (responses st' a) = written (responses (deliver a [terminal] st2) a)"
    unfolding final by (rule close_session_after(1)[OF reg3])
  have w: "written (responses st' a) =
              written (responses st a) @ [Start (length emails)] @ map email_event results @ [terminal]"
    unfolding w0 by (simp add: deliver_simps st2_def)
  have e: "ended (responses st' a)"
    unfolding final by (rule close_session_after(2)[OF reg3])
  have r: "map_of (sseConnections st') sid = None"
    unfolding final by (rule close_session_after(3)[OF reg3])
  have p: "sendSSEMessage sid data st' = (None, st')" for data
    using r by (rule sendSSEMessage_absent)
  have pub: "fst (snd (processXLSXFileWithSSE fs validate (path f)
                           (path_join outputDir outputFilename) (str_or bodyEmailColumn ''email'')
                           bodySenderEmail sid sendSSE s n))
                 = foldl (\<lambda>s ev. snd (call_sendSSE sendSSE ev s)) s
                     ([Start (length emails)] @ map email_event results)"
    if nt: "\<forall>ev s. fst (call_sendSSE sendSSE ev s) = None"
    by (simp add: processXLSXFileWithSSE_no_throw[OF nt assms(3,4)] Let_def foldl_map results_def)
  show ?thesis
    unfolding Let_def
    using len w e r p pub
    unfolding st'_def terminal_def results_def outputFilename_def
    by blast
qed

lemma show_nat_7: "show_nat 7 = ''7''"
  by code_simp

theorem session_event_sequence_witness:
  "map_of (sseConnections ex_registered) ''s1'' = Some 0
   \<and> healthy (responses ex_registered 0)
   \<and> written (responses
        (fst (snd (post_handler
           (ex_io [plain [(''email'', JStr ''a@good.com'')], plain [(''email'', JStr ''bad'')]])
           ex_validate ''out'' 7 (Some \<lparr>path = ''up.xlsx'', originalname = ''list.xlsx''\<rparr>)
           None None (Some ''s1'') ex_registered []))) 0)
       = [Connected ''s1'', Start 2, Email (JStr ''a@good.com'') True None,
          Email (JStr ''bad'') False (Some ''regex''),
          Complete \<lparr>total = 2, valid = 1, invalid = 1\<rparr>
            ''/api/download/validated-7-list.xlsx'' ''validated-7-list.xlsx'']
   \<and> ended (responses
        (fst (snd (post_handler
           (ex_io [plain [(''email'', JStr ''a@good.com'')], plain [(''email'', JStr ''bad'')]])
           ex_validate ''out'' 7 (Some \<lparr>path = ''up.xlsx'', originalname = ''list.xlsx''\<rparr>)
           None None (Some ''s1'') ex_registered []))) 0)"
proof -
  let ?rows = "[plain [(''email'', JStr ''a@good.com'')], plain [(''email'', JStr ''bad'')]]"
  let ?f = "\<lparr>path = ''up.xlsx'', originalname = ''list.xlsx''\<rparr>"
  have h1: "Some ''s1'' = Some ''s1''" by simp
  have h2: "''s1'' \<noteq> []" by simp
  have h3: "readEmailsFromXLSX (ex_io ?rows) (path ?f) = Inr ?rows"
    by (simp add: ex_defs)
  have h4: "?rows \<noteq> []" by simp
  have h5: "map_of (sseConnections ex_registered) ''s1'' = Some 0"
    by (simp add: ex_registered_def server_defs)
  have h6: "healthy (responses ex_registered 0)"
    by (simp add: ex_registered_def server_defs)
  have w0: "written (responses ex_registered 0) = [Connected ''s1'']"
    by (simp add: ex_registered_def server_defs)
  have rs: "fst (validateEmails ex_validate ?rows (str_or None ''email'') None [])
              = [[(''email'', JStr ''a@good.com''), (''valid'', JBool True), (''reason'', JUndefined),
                  (''validators'', JUndefined)],
                 [(''email'', JStr ''bad''), (''valid'', JBool False), (''reason'', JStr ''regex''),
                  (''validators'', JUndefined)]]"
    by (simp add: run_defs ex_defs str_or_def)
  show ?thesis
    using h5 h6
      session_event_sequence[where bodySessionId = "Some ''s1''" and sid = "''s1''"
        and fs = "ex_io ?rows" and f = ?f and emails = ?rows and st = ex_registered and a = 0
        and now = 7 and validate = ex_validate and bodyEmailColumn = None
        and bodySenderEmail = None and n = "[]" and outputDir = "''out''"
        and sendSSE = "None :: nat sender option" and s = "0::nat",
        OF h1 h2 h3 h4 h5 h6]
    by (simp add: Let_def rs w0 show_nat_7 ex_io_def writeResultsToXLSX_def count_valid_def
          count_invalid_def email_event_def reason_of_def get_prop_def read_prop_def)
qed

end
